theory Spec2Isabelle
  imports Complex_Main "HOL-Library.Stream"
begin

section \<open>Exceptions\<close>

text \<open>
  The exceptions the program can raise: \<open>ValueError\<close> (the explicit check of
  \<open>ViT.__init__\<close>, a failed tuple unpacking, a dropout probability out of range),
  \<open>IndexError\<close> (an index or dimension out of range), \<open>ZeroDivisionError\<close>
  (Python's \<open>%\<close>, \<open>//\<close> and \<open>/\<close> on a zero divisor), \<open>TypeError\<close> (iterating a
  tensor of rank 0) and \<open>RuntimeError\<close> (the tensor library's shape errors). A
  computation that can raise returns \<open>error + 'a\<close>, with \<open>Inl\<close> for the exception.
\<close>

datatype error = ValueError | IndexError | ZeroDivisionError | TypeError | RuntimeError

definition bindE :: "error + 'a \<Rightarrow> ('a \<Rightarrow> error + 'b) \<Rightarrow> error + 'b" where
  "bindE r f = (case r of Inl e \<Rightarrow> Inl e | Inr x \<Rightarrow> f x)"

fun mapE :: "('a \<Rightarrow> error + 'b) \<Rightarrow> 'a list \<Rightarrow> error + 'b list" where
  "mapE f [] = Inr []"
| "mapE f (x # xs) = bindE (f x) (\<lambda>y. bindE (mapE f xs) (\<lambda>ys. Inr (y # ys)))"

section \<open>Tensors\<close>

text \<open>
  A tensor is its shape and its elements in row-major (logical) order. Views and strides
  are not modelled: every operation of the library used by the program is determined by
  the logical order of the elements. Floating-point numbers are idealised as reals.
\<close>

record 'a tensor =
  shape :: "nat list"
  data :: "'a list"

definition well_formed :: "'a tensor \<Rightarrow> bool" where
  "well_formed t = (length (data t) = prod_list (shape t))"

text \<open>Row-major position of a multi-index, and the multi-index of a position.\<close>

fun ravel :: "nat list \<Rightarrow> nat list \<Rightarrow> nat" where
  "ravel (n # ns) (i # js) = i * prod_list ns + ravel ns js"
| "ravel _ _ = 0"

fun unravel :: "nat list \<Rightarrow> nat \<Rightarrow> nat list" where
  "unravel [] k = []"
| "unravel (n # ns) k = (k div prod_list ns) # unravel ns (k mod prod_list ns)"

definition valid_index :: "nat list \<Rightarrow> nat list \<Rightarrow> bool" where
  "valid_index s idx = list_all2 (\<lambda>i n. i < n) idx s"

definition get :: "'a tensor \<Rightarrow> nat list \<Rightarrow> 'a" where
  "get t idx = data t ! ravel (shape t) idx"

definition tabulate :: "nat list \<Rightarrow> (nat list \<Rightarrow> 'a) \<Rightarrow> 'a tensor" where
  "tabulate s f = \<lparr>shape = s, data = map (\<lambda>k. f (unravel s k)) [0..<prod_list s]\<rparr>"

definition full :: "nat list \<Rightarrow> 'a \<Rightarrow> 'a tensor" where
  "full s v = \<lparr>shape = s, data = replicate (prod_list s) v\<rparr>"

text \<open>
  A dimension argument may be negative (counted from the end); for a tensor of rank 0
  the library accepts \<open>-1\<close> and \<open>0\<close>.
\<close>

definition wrap_dim :: "nat \<Rightarrow> int \<Rightarrow> error + nat" where
  "wrap_dim r d =
    (let m = int (max r 1) in
     if - m \<le> d \<and> d < m then Inr (nat (d mod m)) else Inl IndexError)"

text \<open>
  \<open>Tensor.unfold(dimension, size, step)\<close>: all slices of length \<open>size\<close> along
  \<open>dimension\<close>, \<open>step\<close> apart. The dimension shrinks to
  \<open>(sizedim - size) // step + 1\<close> and a new last dimension of length \<open>size\<close> holds
  the slice. The library refuses a slice longer than the dimension and a step that is
  not positive.
\<close>

definition unfold :: "'a tensor \<Rightarrow> nat \<Rightarrow> int \<Rightarrow> int \<Rightarrow> error + 'a tensor" where
  "unfold t d sz step =
    (if length (shape t) \<le> d then Inl IndexError
     else if sz < 0 \<or> int (shape t ! d) < sz then Inl RuntimeError
     else if step \<le> 0 then Inl RuntimeError
     else Inr (tabulate
       ((shape t)[d := (shape t ! d - nat sz) div nat step + 1] @ [nat sz])
       (\<lambda>idx. get t ((butlast idx)[d := idx ! d * nat step + last idx]))))"

text \<open>
  \<open>Tensor.reshape(*dims)\<close>: the same elements in the same logical order under a new
  shape. One dimension may be \<open>-1\<close>: it is inferred from the number of elements, which
  the product of the others must divide (and must not be zero). Every other mismatch is
  a \<open>RuntimeError\<close>.
\<close>

definition reshape :: "'a tensor \<Rightarrow> int list \<Rightarrow> error + 'a tensor" where
  "reshape t dims =
    (let numel = prod_list (shape t) in
     if list_ex (\<lambda>d. d < -1) dims then Inl RuntimeError
     else (case filter (\<lambda>d. d = -1) dims of
         [] \<Rightarrow> if prod_list dims = int numel
               then Inr (t\<lparr>shape := map nat dims\<rparr>) else Inl RuntimeError
       | [u] \<Rightarrow>
           (let newsize = nat (prod_list (filter (\<lambda>d. d \<noteq> -1) dims)) in
            if 0 < newsize \<and> numel mod newsize = 0
            then Inr (t\<lparr>shape := map (\<lambda>d. if d = -1 then numel div newsize else nat d) dims\<rparr>)
            else Inl RuntimeError)
       | _ \<Rightarrow> Inl RuntimeError))"

text \<open>\<open>Tensor.transpose(dim0, dim1)\<close> swaps two dimensions.\<close>

definition transpose_t :: "'a tensor \<Rightarrow> int \<Rightarrow> int \<Rightarrow> error + 'a tensor" where
  "transpose_t t dim0 dim1 =
    bindE (wrap_dim (length (shape t)) dim0) (\<lambda>i.
    bindE (wrap_dim (length (shape t)) dim1) (\<lambda>j.
      Inr (tabulate ((shape t)[i := shape t ! j, j := shape t ! i])
             (\<lambda>idx. get t (idx[i := idx ! j, j := idx ! i])))))"

text \<open>
  \<open>Tensor.permute(*dims)\<close>: dimension \<open>k\<close> of the result is dimension \<open>dims[k]\<close> of
  the argument.
\<close>

fun index_of :: "'a list \<Rightarrow> 'a \<Rightarrow> nat" where
  "index_of [] x = 0"
| "index_of (y # ys) x = (if x = y then 0 else Suc (index_of ys x))"

definition permute :: "'a tensor \<Rightarrow> int list \<Rightarrow> error + 'a tensor" where
  "permute t dims =
    (let r = length (shape t) in
     if length dims \<noteq> r then Inl RuntimeError
     else bindE (mapE (wrap_dim r) dims) (\<lambda>p.
       if distinct p
       then Inr (tabulate (map (\<lambda>d. shape t ! d) p)
                  (\<lambda>idx. get t (map (\<lambda>d. idx ! index_of p d) [0..<r])))
       else Inl RuntimeError))"

text \<open>
  Unpacking \<open>q, k, v = t\<close> iterates the tensor along its first dimension, which must
  have exactly three entries.
\<close>

definition select0 :: "'a tensor \<Rightarrow> nat \<Rightarrow> 'a tensor" where
  "select0 t i =
    (let m = prod_list (tl (shape t)) in
     \<lparr>shape = tl (shape t), data = take m (drop (i * m) (data t))\<rparr>)"

definition unbind0 :: "'a tensor \<Rightarrow> error + 'a tensor list" where
  "unbind0 t = (case shape t of [] \<Rightarrow> Inl TypeError | n # ns \<Rightarrow> Inr (map (select0 t) [0..<n]))"

definition unpack3 :: "'a tensor \<Rightarrow> error + ('a tensor \<times> 'a tensor \<times> 'a tensor)" where
  "unpack3 t =
    bindE (unbind0 t) (\<lambda>ts. case ts of [q, k, v] \<Rightarrow> Inr (q, k, v) | _ \<Rightarrow> Inl ValueError)"

text \<open>
  Broadcasting: shapes are aligned at their last dimension; two dimensions agree when
  they are equal or one of them is 1.
\<close>

fun bcast_rev :: "nat list \<Rightarrow> nat list \<Rightarrow> error + nat list" where
  "bcast_rev [] ys = Inr ys"
| "bcast_rev (x # xs) [] = Inr (x # xs)"
| "bcast_rev (x # xs) (y # ys) =
    (if x = y \<or> y = 1 then bindE (bcast_rev xs ys) (\<lambda>zs. Inr (x # zs))
     else if x = 1 then bindE (bcast_rev xs ys) (\<lambda>zs. Inr (y # zs))
     else Inl RuntimeError)"

definition broadcast_shapes :: "nat list \<Rightarrow> nat list \<Rightarrow> error + nat list" where
  "broadcast_shapes s1 s2 = bindE (bcast_rev (rev s1) (rev s2)) (\<lambda>zs. Inr (rev zs))"

text \<open>The element of \<open>t\<close> that position \<open>idx\<close> of a broadcast result reads.\<close>

definition bget :: "'a tensor \<Rightarrow> nat list \<Rightarrow> 'a" where
  "bget t idx =
    get t (map2 (\<lambda>n i. if n = 1 then 0 else i) (shape t)
            (drop (length idx - length (shape t)) idx))"

definition add :: "real tensor \<Rightarrow> real tensor \<Rightarrow> error + real tensor" where
  "add x y =
    bindE (broadcast_shapes (shape x) (shape y)) (\<lambda>s.
      Inr (tabulate s (\<lambda>idx. bget x idx + bget y idx)))"

text \<open>The in-place \<open>x += y\<close>: the broadcast shape must be the shape of \<open>x\<close>.\<close>

definition iadd :: "real tensor \<Rightarrow> real tensor \<Rightarrow> error + real tensor" where
  "iadd x y =
    bindE (broadcast_shapes (shape x) (shape y)) (\<lambda>s.
      if s = shape x then Inr (tabulate s (\<lambda>idx. get x idx + bget y idx))
      else Inl RuntimeError)"

text \<open>Multiplication by a Python float.\<close>

definition smul :: "real tensor \<Rightarrow> real \<Rightarrow> real tensor" where
  "smul t c = t\<lparr>data := map (\<lambda>v. v * c) (data t)\<rparr>"

text \<open>
  The operator \<open>@\<close> (\<open>torch.matmul\<close>): a vector operand is promoted to a matrix (a
  leading 1 for the left one, a trailing 1 for the right one) and the added dimension is
  removed from the result; the leading (batch) dimensions broadcast; the inner
  dimensions must agree.
\<close>

definition matmul :: "real tensor \<Rightarrow> real tensor \<Rightarrow> error + real tensor" where
  "matmul a b =
    (if shape a = [] \<or> shape b = [] then Inl RuntimeError
     else
       (let sa = (if length (shape a) = 1 then 1 # shape a else shape a);
            sb = (if length (shape b) = 1 then shape b @ [1] else shape b);
            m = last (butlast sa); n = last sa; p = last sb
        in if n \<noteq> last (butlast sb) then Inl RuntimeError
           else bindE (broadcast_shapes (butlast (butlast sa)) (butlast (butlast sb))) (\<lambda>bs.
             Inr ((tabulate (bs @ [m, p])
                    (\<lambda>idx. \<Sum>k\<leftarrow>[0..<n].
                        bget (a\<lparr>shape := sa\<rparr>) (butlast idx @ [k])
                      * bget (b\<lparr>shape := sb\<rparr>) (butlast (butlast idx) @ [k, last idx])))
                  \<lparr>shape := bs @ (if length (shape a) = 1 then [] else [m])
                               @ (if length (shape b) = 1 then [] else [p])\<rparr>))))"

text \<open>\<open>Tensor.softmax(dim)\<close>: exponentials normalised along one dimension.\<close>

definition softmax :: "real tensor \<Rightarrow> int \<Rightarrow> error + real tensor" where
  "softmax t dm =
    bindE (wrap_dim (length (shape t)) dm) (\<lambda>d.
      Inr (tabulate (shape t)
        (\<lambda>idx. exp (get t idx) /
           (\<Sum>j\<leftarrow>[0..<(if shape t = [] then 1 else shape t ! d)]. exp (get t (idx[d := j]))))))"

text \<open>
  \<open>torch.cat((a, b), dim)\<close> of two tensors of the same rank (as at its only call, where
  both have rank 3): the shapes agree except along \<open>dim\<close>.
\<close>

definition cat :: "'a tensor \<Rightarrow> 'a tensor \<Rightarrow> int \<Rightarrow> error + 'a tensor" where
  "cat a b dm =
    (if shape a = [] \<or> length (shape a) \<noteq> length (shape b) then Inl RuntimeError
     else bindE (wrap_dim (length (shape a)) dm) (\<lambda>d.
       if (shape a)[d := 0] = (shape b)[d := 0]
       then Inr (tabulate ((shape a)[d := shape a ! d + shape b ! d])
              (\<lambda>idx. if idx ! d < shape a ! d then get a idx
                     else get b (idx[d := idx ! d - shape a ! d])))
       else Inl RuntimeError))"

text \<open>
  \<open>Tensor.expand(*sizes)\<close>: \<open>-1\<close> keeps a dimension; a dimension of length 1 can grow
  to any length; new leading dimensions may be added.
\<close>

definition expand :: "'a tensor \<Rightarrow> int list \<Rightarrow> error + 'a tensor" where
  "expand t sizes =
    (let k = length sizes - length (shape t);
         lead = take k sizes; rest = drop k sizes
     in if length sizes < length (shape t) \<or> list_ex (\<lambda>z. z < 0) lead then Inl RuntimeError
        else if list_all (\<lambda>(z, n). z = -1 \<or> z = int n \<or> (n = 1 \<and> 0 \<le> z)) (zip rest (shape t))
        then Inr (tabulate
               (map nat lead @ map2 (\<lambda>z n. if z = -1 then n else nat z) rest (shape t))
               (\<lambda>idx. bget t idx))
        else Inl RuntimeError)"

text \<open>Indexing \<open>x[:, i]\<close> and its like: position \<open>i\<close> along dimension \<open>d\<close>.\<close>

definition select :: "'a tensor \<Rightarrow> nat \<Rightarrow> nat \<Rightarrow> error + 'a tensor" where
  "select t d i =
    (if length (shape t) \<le> d then Inl IndexError
     else if shape t ! d \<le> i then Inl IndexError
     else Inr (tabulate (take d (shape t) @ drop (Suc d) (shape t))
            (\<lambda>idx. get t (take d idx @ [i] @ drop d idx))))"

section \<open>Effects: the random source and the standard output\<close>

text \<open>
  The program reads the library's global random generator (parameter initialisation
  and dropout) and writes to the standard output (the notice about the mask). Both are
  threaded through every module as an explicit state; an exception ends the run.
  The random source is a stream of samples, uniform on \<open>[0, 1)\<close>. The mode of the
  model, training (\<open>model.train()\<close>, the mode after construction) or inference
  (\<open>model.eval()\<close>), is the argument \<open>training\<close> of every forward function.
\<close>

record state =
  rng :: "real stream"
  stdout :: "string list"

type_synonym 'a M = "state \<Rightarrow> error + ('a \<times> state)"

definition ret :: "'a \<Rightarrow> 'a M" where
  "ret x = (\<lambda>s. Inr (x, s))"

definition raise :: "error \<Rightarrow> 'a M" where
  "raise e = (\<lambda>s. Inl e)"

definition bnd :: "'a M \<Rightarrow> ('a \<Rightarrow> 'b M) \<Rightarrow> 'b M" where
  "bnd m k = (\<lambda>s. case m s of Inl e \<Rightarrow> Inl e | Inr (x, s') \<Rightarrow> k x s')"

definition lift :: "error + 'a \<Rightarrow> 'a M" where
  "lift r = (\<lambda>s. case r of Inl e \<Rightarrow> Inl e | Inr x \<Rightarrow> Inr (x, s))"

definition py_print :: "string \<Rightarrow> unit M" where
  "py_print msg = (\<lambda>s. Inr ((), s\<lparr>stdout := stdout s @ [msg]\<rparr>))"

definition rand_tensor :: "nat list \<Rightarrow> real tensor M" where
  "rand_tensor s = (\<lambda>st.
     Inr (\<lparr>shape = s, data = stake (prod_list s) (rng st)\<rparr>,
          st\<lparr>rng := sdrop (prod_list s) (rng st)\<rparr>))"

section \<open>Library layers\<close>

subsection \<open>nn.Dropout\<close>

text \<open>
  The constructor refuses a probability outside \<open>[0, 1]\<close>. The layer is the identity
  when \<open>p = 0\<close>, outside training mode, or on an empty tensor, and then reads no random
  number; it zeroes everything when \<open>p = 1\<close>; otherwise each element is kept with
  probability \<open>1 - p\<close> and scaled by \<open>1 / (1 - p)\<close>.
\<close>

definition Dropout_init :: "real \<Rightarrow> real M" where
  "Dropout_init p = (if p < 0 \<or> 1 < p then raise ValueError else ret p)"

definition dropout :: "real \<Rightarrow> bool \<Rightarrow> real tensor \<Rightarrow> real tensor M" where
  "dropout p training x = (\<lambda>s.
     if p = 0 then Inr (x, s)
     else if training \<and> prod_list (shape x) \<noteq> 0 then
       (if p = 1 then Inr (x\<lparr>data := map (\<lambda>v. 0) (data x)\<rparr>, s)
        else Inr (x\<lparr>data := map2 (\<lambda>u v. if u < 1 - p then v / (1 - p) else 0)
                               (stake (length (data x)) (rng s)) (data x)\<rparr>,
                  s\<lparr>rng := sdrop (length (data x)) (rng s)\<rparr>))
     else Inr (x, s))"

subsection \<open>nn.Linear\<close>

text \<open>
  A weight of shape \<open>(out_features, in_features)\<close> and an optional bias of shape
  \<open>(out_features)\<close>, both drawn from the random source (the distribution of the
  initialiser is not modelled); a negative size is refused by the allocation. The layer
  computes \<open>x @ weight.T + bias\<close>.
\<close>

record Linear =
  weight :: "real tensor"
  bias :: "real tensor option"

definition Linear_init :: "int \<Rightarrow> int \<Rightarrow> bool \<Rightarrow> Linear M" where
  "Linear_init in_features out_features with_bias =
    (if in_features < 0 \<or> out_features < 0 then raise RuntimeError
     else bnd (rand_tensor [nat out_features, nat in_features]) (\<lambda>w.
       if with_bias
       then bnd (rand_tensor [nat out_features]) (\<lambda>b. ret \<lparr>weight = w, bias = Some b\<rparr>)
       else ret \<lparr>weight = w, bias = None\<rparr>))"

definition Linear_forward :: "Linear \<Rightarrow> real tensor \<Rightarrow> error + real tensor" where
  "Linear_forward self x =
    bindE (transpose_t (weight self) 0 1) (\<lambda>wt.
    bindE (matmul x wt) (\<lambda>y.
      case bias self of None \<Rightarrow> Inr y | Some b \<Rightarrow> add y b))"

subsection \<open>nn.LayerNorm\<close>

text \<open>
  \<open>nn.LayerNorm(dim)\<close> normalises along the last dimension, which must have length
  \<open>dim\<close>: \<open>(x - mean) / sqrt(var + eps) * weight + bias\<close> with the biased variance,
  \<open>eps = 1e-5\<close>, and weight and bias initialised to ones and zeros.
\<close>

record LayerNorm =
  normalized_shape :: nat
  ln_weight :: "real tensor"
  ln_bias :: "real tensor"
  eps :: real

definition LayerNorm_init :: "int \<Rightarrow> LayerNorm M" where
  "LayerNorm_init dm =
    (if dm < 0 then raise RuntimeError
     else ret \<lparr>normalized_shape = nat dm, ln_weight = full [nat dm] 1,
               ln_bias = full [nat dm] 0, eps = 1 / 100000\<rparr>)"

definition LayerNorm_forward :: "LayerNorm \<Rightarrow> real tensor \<Rightarrow> error + real tensor" where
  "LayerNorm_forward self x =
    (let n = normalized_shape self in
     if shape x = [] \<or> last (shape x) \<noteq> n
        \<or> shape (ln_weight self) \<noteq> [n] \<or> shape (ln_bias self) \<noteq> [n]
     then Inl RuntimeError
     else Inr (tabulate (shape x) (\<lambda>idx.
       let row = map (\<lambda>j. get x (butlast idx @ [j])) [0..<n];
           mean = sum_list row / real n;
           var = (\<Sum>v\<leftarrow>row. (v - mean)\<^sup>2) / real n
       in (get x idx - mean) / sqrt (var + eps self) * get (ln_weight self) [last idx]
            + get (ln_bias self) [last idx])))"

subsection \<open>nn.GELU\<close>

text \<open>The exact GELU, \<open>x * \<Phi>(x)\<close>, with the error function as its power series.\<close>

definition erf :: "real \<Rightarrow> real" where
  "erf x = 2 / sqrt pi * (\<Sum>n. (- 1) ^ n * x ^ (2 * n + 1) / (fact n * real (2 * n + 1)))"

definition gelu :: "real \<Rightarrow> real" where
  "gelu x = x * (1 + erf (x / sqrt 2)) / 2"

definition GELU_forward :: "real tensor \<Rightarrow> real tensor" where
  "GELU_forward x = x\<lparr>data := map gelu (data x)\<rparr>"

section \<open>The modules of vit.py\<close>

subsection \<open>MLP\<close>

record MLP =
  fc1 :: Linear
  fc2 :: Linear
  mlp_dropout :: real

text \<open>\<open>if not hidden_features\<close> holds for \<open>None\<close> and for \<open>0\<close>.\<close>

definition or_default :: "int option \<Rightarrow> int \<Rightarrow> int" where
  "or_default v d = (case v of None \<Rightarrow> d | Some n \<Rightarrow> if n = 0 then d else n)"

definition MLP_init :: "int \<Rightarrow> int option \<Rightarrow> int option \<Rightarrow> real \<Rightarrow> MLP M" where
  "MLP_init in_features hidden_features out_features p =
    (let hidden = or_default hidden_features in_features;
         outf = or_default out_features in_features
     in bnd (Linear_init in_features hidden True) (\<lambda>l1.
        bnd (Linear_init hidden outf True) (\<lambda>l2.
        bnd (Dropout_init p) (\<lambda>d.
        ret \<lparr>fc1 = l1, fc2 = l2, mlp_dropout = d\<rparr>))))"

definition MLP_forward :: "MLP \<Rightarrow> bool \<Rightarrow> real tensor \<Rightarrow> real tensor M" where
  "MLP_forward self training x =
    bnd (lift (Linear_forward (fc1 self) x)) (\<lambda>x1.
    bnd (lift (Linear_forward (fc2 self) (GELU_forward x1))) (\<lambda>x2.
    dropout (mlp_dropout self) training x2))"

subsection \<open>Attention\<close>

text \<open>
  \<open>self.scale = 1./dim**0.5\<close> raises \<open>ZeroDivisionError\<close> for \<open>dim = 0\<close>. For a
  negative \<open>dim\<close> Python computes a complex scale and the next statement,
  \<open>nn.Linear(dim, dim*3)\<close>, raises: no module with such a scale is ever returned.
  \<open>self.out\<close> is the sequence of a linear layer and a dropout.
\<close>

record Attention =
  num_heads :: int
  scale :: real
  qkv :: Linear
  attn_dropout :: real
  out_proj :: Linear
  proj_dropout :: real

definition Attention_init :: "int \<Rightarrow> int \<Rightarrow> real \<Rightarrow> real \<Rightarrow> Attention M" where
  "Attention_init dm nheads attn_p proj_p =
    (if dm = 0 then raise ZeroDivisionError
     else bnd (Linear_init dm (dm * 3) False) (\<lambda>l.
          bnd (Dropout_init attn_p) (\<lambda>ad.
          bnd (Linear_init dm dm True) (\<lambda>ol.
          bnd (Dropout_init proj_p) (\<lambda>pd.
          ret \<lparr>num_heads = nheads, scale = 1 / sqrt (real_of_int dm), qkv = l,
               attn_dropout = ad, out_proj = ol, proj_dropout = pd\<rparr>)))))"

text \<open>
  Lines 39 to 41 of \<open>Attention.forward\<close>: the projection, its reshape into heads and
  the split into queries, keys and values.
\<close>

definition Attention_qkv ::
  "Attention \<Rightarrow> real tensor \<Rightarrow> error + (real tensor \<times> real tensor \<times> real tensor)" where
  "Attention_qkv self x =
    (case shape x of
       [b, n, c] \<Rightarrow>
         bindE (Linear_forward (qkv self) x) (\<lambda>y.
           if num_heads self = 0 then Inl ZeroDivisionError
           else bindE (reshape y [int b, int n, 3, num_heads self, int c div num_heads self]) (\<lambda>y5.
                bindE (permute y5 [2, 0, 3, 1, 4]) unpack3))
     | _ \<Rightarrow> Inl ValueError)"

text \<open>Line 42: the scaled scores \<open>(q @ k.transpose(-2, -1)) * self.scale\<close>.\<close>

definition Attention_dot :: "Attention \<Rightarrow> real tensor \<Rightarrow> real tensor \<Rightarrow> error + real tensor" where
  "Attention_dot self q k =
    bindE (transpose_t k (-2) (-1)) (\<lambda>kt.
    bindE (matmul q kt) (\<lambda>qk. Inr (smul qk (scale self))))"

text \<open>
  The whole of \<open>Attention.forward\<close>: the two steps above, the notice about the mask,
  the softmax, the dropout, the product with the values, the transposition and the
  reshape to \<open>(b, n, c)\<close>, which is the shape of \<open>x\<close>, and the output projection with
  its dropout.
\<close>

definition Attention_forward ::
  "Attention \<Rightarrow> bool \<Rightarrow> real tensor \<Rightarrow> 'm option \<Rightarrow> real tensor M" where
  "Attention_forward self training x msk =
    bnd (lift (Attention_qkv self x)) (\<lambda>(q, k, v).
    bnd (lift (Attention_dot self q k)) (\<lambda>dot.
    bnd (if msk \<noteq> None then py_print ''Mask is yet to be implemented.'' else ret ()) (\<lambda>_.
    bnd (lift (softmax dot (-1))) (\<lambda>attn.
    bnd (dropout (attn_dropout self) training attn) (\<lambda>attn'.
    bnd (lift (matmul attn' v)) (\<lambda>av.
    bnd (lift (transpose_t av 1 2)) (\<lambda>avt.
    bnd (lift (reshape avt (map int (shape x)))) (\<lambda>x'.
    bnd (lift (Linear_forward (out_proj self) x')) (\<lambda>x''.
    dropout (proj_dropout self) training x'')))))))))"

subsection \<open>ImgPatches\<close>

record ImgPatches =
  patch_size :: int

definition ImgPatches_init :: "int \<Rightarrow> ImgPatches" where
  "ImgPatches_init p = \<lparr>patch_size = p\<rparr>"

text \<open>
  \<open>b, c, h, w = img.shape\<close> raises \<open>ValueError\<close> unless the image has rank 4; then the
  two \<open>unfold\<close> calls and the \<open>reshape\<close>.
\<close>

definition ImgPatches_forward :: "ImgPatches \<Rightarrow> 'a tensor \<Rightarrow> error + 'a tensor" where
  "ImgPatches_forward self img =
    (case shape img of
       [b, c, h, w] \<Rightarrow>
         bindE (unfold img 2 (patch_size self) (patch_size self)) (\<lambda>p1.
         bindE (unfold p1 3 (patch_size self) (patch_size self)) (\<lambda>patches.
         reshape patches [int b, -1, int c * patch_size self * patch_size self]))
     | _ \<Rightarrow> Inl ValueError)"

subsection \<open>Block\<close>

record Block =
  ln1 :: LayerNorm
  attn :: Attention
  ln2 :: LayerNorm
  mlp :: MLP

definition Block_init :: "int \<Rightarrow> int \<Rightarrow> int \<Rightarrow> real \<Rightarrow> Block M" where
  "Block_init dm nheads mlp_ratio drop_rate =
    bnd (LayerNorm_init dm) (\<lambda>n1.
    bnd (Attention_init dm nheads drop_rate drop_rate) (\<lambda>a.
    bnd (LayerNorm_init dm) (\<lambda>n2.
    bnd (MLP_init dm (Some (dm * mlp_ratio)) None drop_rate) (\<lambda>m.
    ret \<lparr>ln1 = n1, attn = a, ln2 = n2, mlp = m\<rparr>))))"

definition Block_forward :: "Block \<Rightarrow> bool \<Rightarrow> real tensor \<Rightarrow> 'm option \<Rightarrow> real tensor M" where
  "Block_forward self training x msk =
    bnd (lift (LayerNorm_forward (ln1 self) x)) (\<lambda>x1.
    bnd (Attention_forward (attn self) training x1 msk) (\<lambda>a.
    bnd (lift (add x a)) (\<lambda>y.
    bnd (lift (LayerNorm_forward (ln2 self) y)) (\<lambda>x2.
    bnd (MLP_forward (mlp self) training x2) (\<lambda>m.
    lift (add y m))))))"

subsection \<open>Transformer\<close>

record Transformer =
  blocks :: "Block list"

text \<open>The list comprehension over \<open>range(depth)\<close>, empty for \<open>depth \<le> 0\<close>.\<close>

fun make_blocks :: "nat \<Rightarrow> int \<Rightarrow> int \<Rightarrow> int \<Rightarrow> real \<Rightarrow> Block list M" where
  "make_blocks 0 dm nheads mlp_ratio drop_rate = ret []"
| "make_blocks (Suc i) dm nheads mlp_ratio drop_rate =
    bnd (Block_init dm nheads mlp_ratio drop_rate) (\<lambda>b.
    bnd (make_blocks i dm nheads mlp_ratio drop_rate) (\<lambda>bs. ret (b # bs)))"

definition Transformer_init :: "int \<Rightarrow> int \<Rightarrow> int \<Rightarrow> int \<Rightarrow> real \<Rightarrow> Transformer M" where
  "Transformer_init depth dm nheads mlp_ratio drop_rate =
    bnd (make_blocks (nat depth) dm nheads mlp_ratio drop_rate) (\<lambda>bs. ret \<lparr>blocks = bs\<rparr>)"

fun run_blocks :: "Block list \<Rightarrow> bool \<Rightarrow> real tensor \<Rightarrow> 'm option \<Rightarrow> real tensor M" where
  "run_blocks [] training x msk = ret x"
| "run_blocks (block # rest) training x msk =
    bnd (Block_forward block training x msk) (\<lambda>x'. run_blocks rest training x' msk)"

definition Transformer_forward ::
  "Transformer \<Rightarrow> bool \<Rightarrow> real tensor \<Rightarrow> 'm option \<Rightarrow> real tensor M" where
  "Transformer_forward self training x msk = run_blocks (blocks self) training x msk"

subsection \<open>ViT\<close>

datatype Head = MLP_head MLP | Linear_head Linear

record ViT =
  vit_patch_size :: int
  patches :: ImgPatches
  patch_embed :: Linear
  pos_emb :: "real tensor"
  cls_emb :: "real tensor"
  transfomer :: Transformer
  norm_layer :: LayerNorm
  out_head :: Head

text \<open>\<open>torch.zeros(*sizes)\<close> refuses a negative size.\<close>

definition zeros :: "int list \<Rightarrow> real tensor M" where
  "zeros sizes =
    (if list_ex (\<lambda>z. z < 0) sizes then raise RuntimeError else ret (full (map nat sizes) 0))"

text \<open>
  \<open>ViT.__init__\<close>. The remainder \<open>img_size % patch_size\<close> raises
  \<open>ZeroDivisionError\<close> for \<open>patch_size = 0\<close>; Python's \<open>%\<close> and \<open>//\<close> round towards
  minus infinity, as \<open>mod\<close> and \<open>div\<close> on \<open>int\<close> do. The head is an \<open>MLP\<close> built with
  its default dropout of 0, or a linear layer.
\<close>

definition ViT_init ::
  "int \<Rightarrow> int \<Rightarrow> int \<Rightarrow> int \<Rightarrow> bool \<Rightarrow> int \<Rightarrow> int \<Rightarrow> int \<Rightarrow> int \<Rightarrow> real \<Rightarrow> ViT M" where
  "ViT_init img_size psize in_ch num_classes use_mlp embed_dim depth nheads mlp_ratio drop_rate =
    (if psize = 0 then raise ZeroDivisionError
     else if img_size mod psize \<noteq> 0 then raise ValueError
     else
       (let num_patches = (img_size div psize)\<^sup>2;
            patch_dim = in_ch * psize * psize
        in bnd (Linear_init patch_dim embed_dim True) (\<lambda>pe.
           bnd (zeros [1, num_patches + 1, embed_dim]) (\<lambda>pos.
           bnd (zeros [1, 1, embed_dim]) (\<lambda>cls.
           bnd (Transformer_init depth embed_dim nheads mlp_ratio drop_rate) (\<lambda>tr.
           bnd (LayerNorm_init embed_dim) (\<lambda>nm.
           bnd (if use_mlp
                then bnd (MLP_init embed_dim (Some (embed_dim * mlp_ratio)) (Some num_classes) 0)
                       (\<lambda>m. ret (MLP_head m))
                else bnd (Linear_init embed_dim num_classes True) (\<lambda>l. ret (Linear_head l))) (\<lambda>hd.
           ret \<lparr>vit_patch_size = psize, patches = ImgPatches_init psize, patch_embed = pe,
                pos_emb = pos, cls_emb = cls, transfomer = tr, norm_layer = nm,
                out_head = hd\<rparr>))))))))"

definition Head_forward :: "Head \<Rightarrow> bool \<Rightarrow> real tensor \<Rightarrow> real tensor M" where
  "Head_forward h training x =
    (case h of MLP_head m \<Rightarrow> MLP_forward m training x
             | Linear_head l \<Rightarrow> lift (Linear_forward l x))"

text \<open>\<open>ViT.forward\<close>; \<open>x.shape[0]\<close> raises \<open>IndexError\<close> on a tensor of rank 0.\<close>

definition ViT_forward :: "ViT \<Rightarrow> bool \<Rightarrow> real tensor \<Rightarrow> 'm option \<Rightarrow> real tensor M" where
  "ViT_forward self training x msk =
    (case shape x of
       [] \<Rightarrow> raise IndexError
     | b # _ \<Rightarrow>
         bnd (lift (expand (cls_emb self) [int b, -1, -1])) (\<lambda>cls_token.
         bnd (lift (ImgPatches_forward (patches self) x)) (\<lambda>p.
         bnd (lift (Linear_forward (patch_embed self) p)) (\<lambda>e.
         bnd (lift (cat cls_token e 1)) (\<lambda>xc.
         bnd (lift (iadd xc (pos_emb self))) (\<lambda>xp.
         bnd (Transformer_forward (transfomer self) training xp msk) (\<lambda>xt.
         bnd (lift (select xt 1 0)) (\<lambda>x0.
         bnd (lift (LayerNorm_forward (norm_layer self) x0)) (\<lambda>xn.
         Head_forward (out_head self) training xn)))))))))"

section \<open>The patch sequence in the words of the specification\<close>

text \<open>
  The specification describes the patch sequence as follows: patch \<open>j\<close>, in row-major
  order over the grid of non-overlapping \<open>P \<times> P\<close> blocks, is block \<open>j\<close> flattened with
  all its channel values (channel by channel, each channel row by row).
\<close>

definition spec_patches :: "nat \<Rightarrow> 'a tensor \<Rightarrow> 'a tensor" where
  "spec_patches P img =
    (let b = shape img ! 0; c = shape img ! 1; h = shape img ! 2; w = shape img ! 3 in
     tabulate [b, (h div P) * (w div P), c * P * P]
       (\<lambda>idx. let j = idx ! 1; r = idx ! 2 in
          get img [idx ! 0, r div (P * P),
                   (j div (w div P)) * P + (r mod (P * P)) div P,
                   (j mod (w div P)) * P + r mod P]))"

section \<open>Example inputs\<close>

text \<open>
  An image of one row of two \<open>2 \<times> 2\<close> blocks in two channels, each pixel holding its own
  position: channel 0 is \<open>0 1 2 3 / 4 5 6 7\<close>, channel 1 is \<open>8 9 10 11 / 12 13 14 15\<close>.
\<close>

definition img_2ch :: "nat tensor" where
  "img_2ch = \<lparr>shape = [1, 2, 2, 4], data = [0, 1, 2, 3, 4, 5, 6, 7, 8, 9, 10, 11, 12, 13, 14, 15]\<rparr>"

text \<open>An image of one channel, 3 rows and 5 columns, and one of a single row.\<close>

definition img_3x5 :: "nat tensor" where
  "img_3x5 = \<lparr>shape = [1, 1, 3, 5], data = [0, 1, 2, 3, 4, 5, 6, 7, 8, 9, 10, 11, 12, 13, 14]\<rparr>"

definition img_1x4 :: "nat tensor" where
  "img_1x4 = \<lparr>shape = [1, 1, 1, 4], data = [0, 1, 2, 3]\<rparr>"

text \<open>
  Two states of the environment, a small attention module (embedding dimension 4, two
  heads), a block around it, and a model for single-channel \<open>4 \<times> 4\<close> images cut into
  \<open>2 \<times> 2\<close> patches, with three classes.
\<close>

definition st0 :: state where
  "st0 = \<lparr>rng = sconst 0, stdout = []\<rparr>"

definition st1 :: state where
  "st1 = \<lparr>rng = sconst 1, stdout = [''earlier output'']\<rparr>"

definition linear_ex :: "nat \<Rightarrow> nat \<Rightarrow> bool \<Rightarrow> Linear" where
  "linear_ex out_features in_features with_bias =
    \<lparr>weight = full [out_features, in_features] 1,
     bias = (if with_bias then Some (full [out_features] 0) else None)\<rparr>"

definition layer_norm_ex :: LayerNorm where
  "layer_norm_ex =
    \<lparr>normalized_shape = 4, ln_weight = full [4] 1, ln_bias = full [4] 0, eps = 1 / 100000\<rparr>"

definition attention_ex :: Attention where
  "attention_ex =
    \<lparr>num_heads = 2, scale = 1 / sqrt 4, qkv = linear_ex 12 4 False, attn_dropout = 0,
     out_proj = linear_ex 4 4 True, proj_dropout = 0\<rparr>"

definition block_ex :: Block where
  "block_ex =
    \<lparr>ln1 = layer_norm_ex, attn = attention_ex, ln2 = layer_norm_ex,
     mlp = \<lparr>fc1 = linear_ex 16 4 True, fc2 = linear_ex 4 16 True, mlp_dropout = 0\<rparr>\<rparr>"

definition vit_ex :: ViT where
  "vit_ex =
    \<lparr>vit_patch_size = 2, patches = ImgPatches_init 2, patch_embed = linear_ex 4 4 True,
     pos_emb = full [1, 5, 4] 0, cls_emb = full [1, 1, 4] 0,
     transfomer = \<lparr>blocks = [block_ex]\<rparr>, norm_layer = layer_norm_ex,
     out_head = Linear_head (linear_ex 3 4 True)\<rparr>"

definition tokens_ex :: "real tensor" where
  "tokens_ex = full [1, 2, 4] 1"

definition image_ex :: "real tensor" where
  "image_ex = full [1, 1, 4, 4] 1"

section \<open>Notions used to state the properties\<close>

text \<open>What a caller observes of a run: the exception, or the value returned.\<close>

definition outcome :: "error + ('a \<times> state) \<Rightarrow> error + 'a" where
  "outcome r = map_sum id fst r"

text \<open>The same, together with the random source left behind.\<close>

definition outcome_rng :: "error + ('a \<times> state) \<Rightarrow> error + ('a \<times> real stream)" where
  "outcome_rng r = map_sum id (\<lambda>(x, s). (x, rng s)) r"

text \<open>A computation that returns from every state.\<close>

definition succeeds :: "'a M \<Rightarrow> bool" where
  "succeeds m = (\<forall>s. \<exists>x s'. m s = Inr (x, s'))"

text \<open>A property of every value a computation returns.\<close>

definition post :: "'a M \<Rightarrow> ('a \<Rightarrow> bool) \<Rightarrow> bool" where
  "post m P = (\<forall>s x s'. m s = Inr (x, s') \<longrightarrow> P x)"

text \<open>
  Two computations started in related states raise the same exception or return the same
  value in related states.
\<close>

definition mrel :: "(state \<Rightarrow> state \<Rightarrow> bool) \<Rightarrow> 'a M \<Rightarrow> 'a M \<Rightarrow> bool" where
  "mrel Q m1 m2 =
    (\<forall>s t. Q s t \<longrightarrow> rel_sum (=) (\<lambda>(x, s') (y, t'). x = y \<and> Q s' t') (m1 s) (m2 t))"

definition same_rng :: "state \<Rightarrow> state \<Rightarrow> bool" where
  "same_rng s t = (rng s = rng t)"

definition any_state :: "state \<Rightarrow> state \<Rightarrow> bool" where
  "any_state s t = True"

text \<open>
  An attention module of embedding dimension \<open>D\<close> with \<open>H\<close> heads: the parameter shapes
  that \<open>Attention.__init__\<close> allocates (their values change with training).
\<close>

definition Attention_dims :: "Attention \<Rightarrow> nat \<Rightarrow> nat \<Rightarrow> bool" where
  "Attention_dims a D H =
    (num_heads a = int H \<and> shape (weight (qkv a)) = [3 * D, D] \<and> bias (qkv a) = None
     \<and> shape (weight (out_proj a)) = [D, D]
     \<and> (case bias (out_proj a) of None \<Rightarrow> False | Some bb \<Rightarrow> shape bb = [D]))"

text \<open>The dropout probabilities of a model, and dropout being disabled.\<close>

definition Block_dropouts :: "Block \<Rightarrow> real list" where
  "Block_dropouts b = [attn_dropout (attn b), proj_dropout (attn b), mlp_dropout (mlp b)]"

definition Head_dropouts :: "Head \<Rightarrow> real list" where
  "Head_dropouts h = (case h of MLP_head m \<Rightarrow> [mlp_dropout m] | Linear_head l \<Rightarrow> [])"

definition ViT_dropouts :: "ViT \<Rightarrow> real list" where
  "ViT_dropouts m =
    concat (map Block_dropouts (blocks (transfomer m))) @ Head_dropouts (out_head m)"

definition dropout_disabled :: "bool \<Rightarrow> real list \<Rightarrow> bool" where
  "dropout_disabled training ps = (if training then list_all (\<lambda>p. p = 0) ps else True)"

section \<open>The transformer block in the words of the specification\<close>

text \<open>
  The specification describes the block as two residual steps, each around a sub-layer
  applied to the layer norm of its input: \<open>x = x + Attention(LayerNorm(x), mask)\<close>, then
  \<open>x = x + FeedForward(LayerNorm(x))\<close>, with two layer norms of their own parameters.
\<close>

definition residual :: "(real tensor \<Rightarrow> real tensor M) \<Rightarrow> real tensor \<Rightarrow> real tensor M" where
  "residual f x = bnd (f x) (\<lambda>y. lift (add x y))"

definition pre_norm :: "LayerNorm \<Rightarrow> (real tensor \<Rightarrow> real tensor M) \<Rightarrow> real tensor \<Rightarrow> real tensor M" where
  "pre_norm nrm f x = bnd (lift (LayerNorm_forward nrm x)) f"

definition spec_Block ::
  "LayerNorm \<Rightarrow> (real tensor \<Rightarrow> real tensor M) \<Rightarrow> LayerNorm \<Rightarrow> (real tensor \<Rightarrow> real tensor M)
     \<Rightarrow> real tensor \<Rightarrow> real tensor M" where
  "spec_Block norm1 attention norm2 feed_forward x =
    bnd (residual (pre_norm norm1 attention) x) (residual (pre_norm norm2 feed_forward))"

section \<open>Indices\<close>

lemma well_formed_tabulate: "well_formed (tabulate s f)"
  by (simp add: well_formed_def tabulate_def)

lemma shape_tabulate: "shape (tabulate s f) = s"
  by (simp add: tabulate_def)

lemma shape_full: "shape (full s v) = s"
  by (simp add: full_def)

lemma well_formed_full: "well_formed (full s v)"
  by (simp add: full_def well_formed_def)

lemma length_unravel: "length (unravel s k) = length s"
  by (induction s arbitrary: k) auto

lemma valid_unravel: "k < prod_list s \<Longrightarrow> valid_index s (unravel s k)"
proof (induction s arbitrary: k)
  case Nil
  then show ?case by (simp add: valid_index_def)
next
  case (Cons n ns)
  have pos: "0 < prod_list ns" using Cons.prems by (cases "prod_list ns = 0") auto
  have "k div prod_list ns < n"
    using Cons.prems pos by (simp add: less_mult_imp_div_less mult.commute)
  moreover have "valid_index ns (unravel ns (k mod prod_list ns))"
    using Cons.IH pos by simp
  ultimately show ?case by (simp add: valid_index_def)
qed

lemma ravel_unravel: "k < prod_list s \<Longrightarrow> ravel s (unravel s k) = k"
proof (induction s arbitrary: k)
  case Nil
  then show ?case by simp
next
  case (Cons n ns)
  have pos: "0 < prod_list ns" using Cons.prems by (cases "prod_list ns = 0") auto
  then show ?case using Cons.IH [of "k mod prod_list ns"] by simp
qed

lemma ravel_less: "valid_index s idx \<Longrightarrow> ravel s idx < prod_list s"
proof (induction s arbitrary: idx)
  case Nil
  then show ?case by (simp add: valid_index_def)
next
  case (Cons n ns)
  then obtain i js where idx: "idx = i # js" and i: "i < n" and js: "valid_index ns js"
    by (auto simp: valid_index_def list_all2_Cons2)
  have "ravel ns js < prod_list ns" using Cons.IH js by simp
  then have "i * prod_list ns + ravel ns js < Suc i * prod_list ns" by simp
  also have "\<dots> \<le> n * prod_list ns" using i by (intro mult_le_mono1) simp
  finally show ?case by (simp add: idx)
qed

lemma unravel_ravel: "valid_index s idx \<Longrightarrow> unravel s (ravel s idx) = idx"
proof (induction s arbitrary: idx)
  case Nil
  then show ?case by (simp add: valid_index_def)
next
  case (Cons n ns)
  then obtain i js where idx: "idx = i # js" and i: "i < n" and js: "valid_index ns js"
    by (auto simp: valid_index_def list_all2_Cons2)
  have lt: "ravel ns js < prod_list ns" using ravel_less js by simp
  then show ?case using Cons.IH [OF js] by (simp add: idx)
qed

lemma get_tabulate: "valid_index s idx \<Longrightarrow> get (tabulate s f) idx = f idx"
  using ravel_less [of s idx] by (simp add: get_def tabulate_def unravel_ravel)

lemma tabulate_cong:
  "(\<And>idx. valid_index s idx \<Longrightarrow> f idx = g idx) \<Longrightarrow> tabulate s f = tabulate s g"
  by (simp add: tabulate_def valid_unravel)

section \<open>Patch extraction\<close>

lemma unfold_Inr:
  assumes "d < length (shape t)" "0 < P" "P \<le> shape t ! d"
  shows "unfold t d (int P) (int P) =
     Inr (tabulate ((shape t)[d := shape t ! d div P] @ [P])
            (\<lambda>idx. get t ((butlast idx)[d := idx ! d * P + last idx])))"
  using assms by (simp add: unfold_def le_div_geq)

lemma reshape_infer_mid:
  assumes "prod_list (shape t) = a * m * z" "0 < a" "0 < z"
  shows "reshape t [int a, -1, int z] = Inr (t\<lparr>shape := [a, m, z]\<rparr>)"
proof -
  have "nat (int a * int z) = a * z" by (simp add: nat_mult_distrib)
  moreover have "a * m * z = m * (a * z)" by simp
  ultimately show ?thesis using assms by (simp add: reshape_def Let_def)
qed

text \<open>
  What \<open>ImgPatches.forward\<close> computes on an image no smaller than a patch: element
  \<open>k\<close> of the output, in row-major order, is the pixel whose channel, block row, block
  column and position in the block are the digits of \<open>k\<close> in the shape
  \<open>(b, c, h // P, w // P, P, P)\<close>. The channel varies slower than the block.
\<close>

lemma ImgPatches_forward_Inr:
  assumes "shape img = [b, c, h, w]" "0 < b" "0 < c" "0 < P" "P \<le> h" "P \<le> w"
  shows "ImgPatches_forward \<lparr>patch_size = int P\<rparr> img =
     Inr \<lparr>shape = [b, (h div P) * (w div P), c * P * P],
          data = map (\<lambda>k. case unravel [b, c, h div P, w div P, P, P] k of
                     [b', c', i, j, p, q] \<Rightarrow> get img [b', c', i * P + p, j * P + q])
                   [0..<b * c * (h div P) * (w div P) * P * P]\<rparr>"
proof -
  let ?p1 = "tabulate [b, c, h div P, w, P]
      (\<lambda>idx. get img ((butlast idx)[2 := idx ! 2 * P + last idx]))"
  let ?p2 = "tabulate [b, c, h div P, w div P, P, P]
      (\<lambda>idx. get ?p1 ((butlast idx)[3 := idx ! 3 * P + last idx]))"
  have u1: "unfold img 2 (int P) (int P) = Inr ?p1"
    using assms unfold_Inr [of 2 img P] by simp
  have u2: "unfold ?p1 3 (int P) (int P) = Inr ?p2"
    using assms unfold_Inr [of 3 ?p1 P] by (simp add: shape_tabulate)
  have r: "reshape ?p2 [int b, -1, int c * int P * int P] =
      Inr (?p2\<lparr>shape := [b, (h div P) * (w div P), c * P * P]\<rparr>)"
    using reshape_infer_mid [of ?p2 b "(h div P) * (w div P)" "c * P * P"] assms
    by (simp add: shape_tabulate)
  have el: "get ?p1 ((butlast idx)[3 := idx ! 3 * P + last idx]) =
      (case idx of [b', c', i, j, p, q] \<Rightarrow> get img [b', c', i * P + p, j * P + q])"
    if v: "valid_index [b, c, h div P, w div P, P, P] idx" for idx
  proof -
    from v obtain b' c' i j p q where idx: "idx = [b', c', i, j, p, q]"
      and bd: "b' < b" "c' < c" "i < h div P" "j < w div P" "p < P" "q < P"
      by (auto simp: valid_index_def list_all2_Cons2)
    have "j * P + q < Suc j * P" using bd by simp
    also have "\<dots> \<le> (w div P) * P" using bd by (intro mult_le_mono1) simp
    also have "\<dots> \<le> w" by simp
    finally have "valid_index [b, c, h div P, w, P] [b', c', i, j * P + q, p]"
      using bd by (simp add: valid_index_def)
    then show ?thesis by (simp add: idx get_tabulate)
  qed
  have "data ?p2 = map (\<lambda>k. case unravel [b, c, h div P, w div P, P, P] k of
                     [b', c', i, j, p, q] \<Rightarrow> get img [b', c', i * P + p, j * P + q])
                   [0..<b * c * (h div P) * (w div P) * P * P]"
  proof -
    define s where "s = [b, c, h div P, w div P, P, P]"
    have n: "prod_list s = b * c * (h div P) * (w div P) * P * P"
      by (simp add: s_def mult.assoc)
    have "map (\<lambda>k. get ?p1 ((butlast (unravel s k))[3 := unravel s k ! 3 * P + last (unravel s k)]))
            [0..<prod_list s] =
          map (\<lambda>k. case unravel s k of
                     [b', c', i, j, p, q] \<Rightarrow> get img [b', c', i * P + p, j * P + q])
            [0..<prod_list s]"
      by (rule map_cong [OF refl]) (simp add: el valid_unravel flip: s_def del: unravel.simps)
    then show ?thesis
      unfolding tabulate_def n [symmetric] by (simp flip: s_def del: unravel.simps)
  qed
  then show ?thesis
    using assms(1) u1 u2 r by (simp add: ImgPatches_forward_def bindE_def del: unravel.simps)
qed

lemma ImgPatches_forward_small:
  assumes "shape img = [b, c, h, w]" "0 < P" "h < P \<or> w < P"
  shows "ImgPatches_forward \<lparr>patch_size = int P\<rparr> img = Inl RuntimeError"
proof (cases "h < P")
  case True
  then show ?thesis using assms by (simp add: ImgPatches_forward_def unfold_def bindE_def)
next
  case False
  then have w: "w < P" and h: "P \<le> h" using assms by auto
  have "unfold img 2 (int P) (int P) = Inr (tabulate [b, c, h div P, w, P]
      (\<lambda>idx. get img ((butlast idx)[2 := idx ! 2 * P + last idx])))"
    using assms h unfold_Inr [of 2 img P] by simp
  then show ?thesis
    using assms w by (simp add: ImgPatches_forward_def unfold_def bindE_def shape_tabulate)
qed

text \<open>
  The output reads only the rows and columns that lie in a complete block: two images
  that agree there have the same patches.
\<close>

lemma ImgPatches_forward_region:
  assumes sh: "shape img = [b, c, h, w]" "shape img' = [b, c, h, w]"
    and pos: "0 < b" "0 < c" "0 < P" "P \<le> h" "P \<le> w"
    and agree: "\<And>b' c' y x. b' < b \<Longrightarrow> c' < c \<Longrightarrow> y < (h div P) * P \<Longrightarrow> x < (w div P) * P
        \<Longrightarrow> get img' [b', c', y, x] = get img [b', c', y, x]"
  shows "ImgPatches_forward \<lparr>patch_size = int P\<rparr> img' =
         ImgPatches_forward \<lparr>patch_size = int P\<rparr> img"
proof -
  define s where "s = [b, c, h div P, w div P, P, P]"
  have "(case unravel s k of [b', c', i, j, p, q] \<Rightarrow> get img' [b', c', i * P + p, j * P + q]) =
        (case unravel s k of [b', c', i, j, p, q] \<Rightarrow> get img [b', c', i * P + p, j * P + q])"
    if k: "k < prod_list s" for k
  proof -
    from valid_unravel [OF k] obtain b' c' i j p q where idx: "unravel s k = [b', c', i, j, p, q]"
      and bd: "b' < b" "c' < c" "i < h div P" "j < w div P" "p < P" "q < P"
      unfolding s_def by (auto simp: valid_index_def list_all2_Cons2 simp del: unravel.simps)
    have "i * P + p < Suc i * P" using bd by simp
    also have "\<dots> \<le> (h div P) * P" using bd by (intro mult_le_mono1) simp
    finally have y: "i * P + p < (h div P) * P" .
    have "j * P + q < Suc j * P" using bd by simp
    also have "\<dots> \<le> (w div P) * P" using bd by (intro mult_le_mono1) simp
    finally have x: "j * P + q < (w div P) * P" .
    show ?thesis using agree [OF bd(1,2) y x] by (simp add: idx)
  qed
  then have "map (\<lambda>k. case unravel s k of
                 [b', c', i, j, p, q] \<Rightarrow> get img' [b', c', i * P + p, j * P + q])
                [0..<prod_list s] =
             map (\<lambda>k. case unravel s k of
                 [b', c', i, j, p, q] \<Rightarrow> get img [b', c', i * P + p, j * P + q])
                [0..<prod_list s]"
    by (intro map_cong [OF refl]) simp
  moreover have "prod_list s = b * c * (h div P) * (w div P) * P * P"
    by (simp add: s_def mult.assoc)
  ultimately show ?thesis
    unfolding ImgPatches_forward_Inr [OF sh(1) pos] ImgPatches_forward_Inr [OF sh(2) pos]
    by (simp flip: s_def del: unravel.simps)
qed

section \<open>Runs\<close>

lemma bnd_assoc: "bnd (bnd m f) g = bnd m (\<lambda>x. bnd (f x) g)"
  by (auto simp: bnd_def fun_eq_iff split: sum.splits)

lemma bnd_ret: "bnd (ret x) f = f x"
  by (simp add: bnd_def ret_def)

lemma succeeds_ret: "succeeds (ret x)"
  by (simp add: succeeds_def ret_def)

lemma succeeds_bnd:
  assumes "succeeds m" "\<And>x. succeeds (k x)"
  shows "succeeds (bnd m k)"
  unfolding succeeds_def
proof
  fix s
  from assms(1) obtain x s' where m: "m s = Inr (x, s')" unfolding succeeds_def by blast
  from assms(2) [of x] obtain y s'' where "k x s' = Inr (y, s'')" unfolding succeeds_def by blast
  with m show "\<exists>y s''. bnd m k s = Inr (y, s'')" by (simp add: bnd_def)
qed

lemma mrel_ret: "mrel Q (ret x) (ret x)"
  by (simp add: mrel_def ret_def)

lemma mrel_raise: "mrel Q (raise e) (raise e)"
  by (simp add: mrel_def raise_def)

lemma mrel_lift: "mrel Q (lift r) (lift r)"
  by (cases r) (simp_all add: mrel_def lift_def)

lemma mrel_bnd:
  assumes "mrel Q m1 m2" "\<And>x. mrel Q (k1 x) (k2 x)"
  shows "mrel Q (bnd m1 k1) (bnd m2 k2)"
  unfolding mrel_def
proof (intro allI impI)
  fix s t
  assume q: "Q s t"
  from assms(1) q have r: "rel_sum (=) (\<lambda>(x, s') (y, t'). x = y \<and> Q s' t') (m1 s) (m2 t)"
    unfolding mrel_def by blast
  show "rel_sum (=) (\<lambda>(x, s') (y, t'). x = y \<and> Q s' t') (bnd m1 k1 s) (bnd m2 k2 t)"
  proof (cases "m1 s")
    case (Inl e)
    with r show ?thesis by (cases "m2 t") (simp_all add: bnd_def)
  next
    case (Inr p)
    obtain x s' where p: "p = (x, s')" by (cases p)
    from r Inr p obtain t' where m2: "m2 t = Inr (x, t')" and q': "Q s' t'"
      by (cases "m2 t") auto
    from assms(2) [of x] q' have "rel_sum (=) (\<lambda>(x, s') (y, t'). x = y \<and> Q s' t') (k1 x s') (k2 x t')"
      unfolding mrel_def by blast
    then show ?thesis using Inr p m2 by (simp add: bnd_def)
  qed
qed

lemma mrel_print_ret: "mrel same_rng (py_print msg) (ret ())"
  by (simp add: mrel_def same_rng_def py_print_def ret_def)

lemma mrel_print: "mrel any_state (py_print msg) (py_print msg)"
  by (simp add: mrel_def any_state_def py_print_def)

lemma mrel_dropout_same_rng: "mrel same_rng (dropout p training x) (dropout p training x)"
  by (auto simp: mrel_def same_rng_def dropout_def)

lemma mrel_dropout_disabled:
  assumes "dropout_disabled training [p]"
  shows "mrel any_state (dropout p training x) (dropout p training x)"
proof (cases training)
  case True
  with assms have "p = 0" by (simp add: dropout_disabled_def)
  then show ?thesis by (simp add: mrel_def any_state_def dropout_def)
next
  case False
  then show ?thesis by (simp add: mrel_def any_state_def dropout_def)
qed

lemma mrel_run:
  assumes "mrel Q m1 m2" "Q s t"
  shows "rel_sum (=) (\<lambda>(x, s') (y, t'). x = y \<and> Q s' t') (m1 s) (m2 t)"
  using assms unfolding mrel_def by blast

lemma mrel_outcome:
  assumes "mrel Q m1 m2" "Q s t"
  shows "outcome (m1 s) = outcome (m2 t)"
  using mrel_run [OF assms] unfolding outcome_def
  by (cases "m1 s"; cases "m2 t") auto

lemma mrel_outcome_rng:
  assumes "mrel same_rng m1 m2" "rng s = rng t"
  shows "outcome_rng (m1 s) = outcome_rng (m2 t)"
proof -
  have "same_rng s t" using assms(2) by (simp add: same_rng_def)
  from mrel_run [OF assms(1) this] show ?thesis
    unfolding outcome_rng_def by (cases "m1 s"; cases "m2 t") (auto simp: same_rng_def)
qed

section \<open>The mask has no effect\<close>

lemma Attention_forward_mask:
  "mrel same_rng (Attention_forward a training x (Some mk)) (Attention_forward a training x None)"
  unfolding Attention_forward_def
  by (intro mrel_bnd mrel_lift mrel_dropout_same_rng) (auto intro!: mrel_bnd mrel_lift mrel_dropout_same_rng mrel_print_ret)

lemma MLP_forward_same_rng: "mrel same_rng (MLP_forward m training x) (MLP_forward m training x)"
  unfolding MLP_forward_def by (intro mrel_bnd mrel_lift mrel_dropout_same_rng)

lemma Block_forward_mask:
  "mrel same_rng (Block_forward b training x (Some mk)) (Block_forward b training x None)"
  unfolding Block_forward_def
  by (intro mrel_bnd mrel_lift Attention_forward_mask MLP_forward_same_rng)

lemma run_blocks_mask:
  "mrel same_rng (run_blocks bs training x (Some mk)) (run_blocks bs training x None)"
proof (induction bs arbitrary: x)
  case Nil
  show ?case by (simp add: mrel_ret)
next
  case (Cons b bs)
  show ?case by simp (intro mrel_bnd Block_forward_mask Cons.IH)
qed

lemma Head_forward_same_rng: "mrel same_rng (Head_forward h training x) (Head_forward h training x)"
  by (cases h) (simp_all add: Head_forward_def MLP_forward_same_rng mrel_lift)

lemma ViT_forward_mask:
  "mrel same_rng (ViT_forward m training x (Some mk)) (ViT_forward m training x None)"
proof (cases "shape x")
  case Nil
  then show ?thesis by (simp add: ViT_forward_def mrel_raise)
next
  case (Cons b bs)
  then show ?thesis
    unfolding ViT_forward_def Transformer_forward_def
    by simp (intro mrel_bnd mrel_lift run_blocks_mask Head_forward_same_rng)
qed

section \<open>Without dropout the random source is not read\<close>

lemma dropout_disabled_Cons:
  "dropout_disabled training (p # ps) = (dropout_disabled training [p] \<and> dropout_disabled training ps)"
  by (simp add: dropout_disabled_def)

lemma dropout_disabled_append:
  "dropout_disabled training (ps @ qs) = (dropout_disabled training ps \<and> dropout_disabled training qs)"
  by (simp add: dropout_disabled_def)

lemma MLP_forward_any_state:
  assumes "dropout_disabled training [mlp_dropout m]"
  shows "mrel any_state (MLP_forward m training x) (MLP_forward m training x)"
  unfolding MLP_forward_def
  by (intro mrel_bnd mrel_lift mrel_dropout_disabled assms)

lemma Attention_forward_any_state:
  assumes "dropout_disabled training [attn_dropout a]" "dropout_disabled training [proj_dropout a]"
  shows "mrel any_state (Attention_forward a training x msk) (Attention_forward a training x msk)"
  unfolding Attention_forward_def
  by (intro mrel_bnd mrel_lift)
     (auto intro!: mrel_bnd mrel_lift mrel_dropout_disabled mrel_print mrel_ret assms)

lemma Block_forward_any_state:
  assumes "dropout_disabled training (Block_dropouts b)"
  shows "mrel any_state (Block_forward b training x msk) (Block_forward b training x msk)"
proof -
  from assms have d: "dropout_disabled training [attn_dropout (attn b)]"
    "dropout_disabled training [proj_dropout (attn b)]"
    "dropout_disabled training [mlp_dropout (mlp b)]"
    by (auto simp: Block_dropouts_def dropout_disabled_def split: if_splits)
  show ?thesis
    unfolding Block_forward_def
    by (intro mrel_bnd mrel_lift Attention_forward_any_state MLP_forward_any_state d)
qed

lemma run_blocks_any_state:
  assumes "dropout_disabled training (concat (map Block_dropouts bs))"
  shows "mrel any_state (run_blocks bs training x msk) (run_blocks bs training x msk)"
  using assms
proof (induction bs arbitrary: x)
  case Nil
  show ?case by (simp add: mrel_ret)
next
  case (Cons b bs)
  then have b: "dropout_disabled training (Block_dropouts b)"
    and bs: "dropout_disabled training (concat (map Block_dropouts bs))"
    by (simp_all add: dropout_disabled_append)
  show ?case
    by simp (intro mrel_bnd Block_forward_any_state b Cons.IH bs)
qed

lemma Head_forward_any_state:
  assumes "dropout_disabled training (Head_dropouts h)"
  shows "mrel any_state (Head_forward h training x) (Head_forward h training x)"
  using assms
  by (cases h) (simp_all add: Head_forward_def Head_dropouts_def MLP_forward_any_state mrel_lift)

lemma ViT_forward_any_state:
  assumes "dropout_disabled training (ViT_dropouts m)"
  shows "mrel any_state (ViT_forward m training x msk) (ViT_forward m training x msk)"
proof (cases "shape x")
  case Nil
  then show ?thesis by (simp add: ViT_forward_def mrel_raise)
next
  case (Cons b bs)
  from assms have d: "dropout_disabled training (concat (map Block_dropouts (blocks (transfomer m))))"
    "dropout_disabled training (Head_dropouts (out_head m))"
    by (simp_all add: ViT_dropouts_def dropout_disabled_append)
  from Cons show ?thesis
    unfolding ViT_forward_def Transformer_forward_def
    by simp
       (intro mrel_bnd mrel_lift run_blocks_any_state Head_forward_any_state d)
qed

section \<open>Construction\<close>

lemma post_ret: "P x \<Longrightarrow> post (ret x) P"
  by (simp add: post_def ret_def)

lemma post_raise: "post (raise e) P"
  by (simp add: post_def raise_def)

lemma post_bnd:
  assumes "post m P" "\<And>x. P x \<Longrightarrow> post (k x) Q"
  shows "post (bnd m k) Q"
  unfolding post_def
proof (intro allI impI)
  fix s y s''
  assume r: "bnd m k s = Inr (y, s'')"
  then obtain x s' where m: "m s = Inr (x, s')" and k: "k x s' = Inr (y, s'')"
    by (auto simp: bnd_def split: sum.splits)
  from assms(1) m have "P x" unfolding post_def by blast
  from assms(2) [OF this] k show "Q y" unfolding post_def by blast
qed

lemma post_True: "post m (\<lambda>x. True)"
  by (simp add: post_def)

lemma postD: "post m P \<Longrightarrow> m s = Inr (x, s') \<Longrightarrow> P x"
  unfolding post_def by blast

lemma post_conj: "post m P \<Longrightarrow> post m Q \<Longrightarrow> post m (\<lambda>x. P x \<and> Q x)"
  unfolding post_def by blast

lemma post_mono: "post m P \<Longrightarrow> (\<And>x. P x \<Longrightarrow> Q x) \<Longrightarrow> post m Q"
  unfolding post_def by blast

lemma succeeds_rand_tensor: "succeeds (rand_tensor s)"
  by (simp add: succeeds_def rand_tensor_def)

lemma post_rand_tensor: "post (rand_tensor s) (\<lambda>t. shape t = s \<and> well_formed t)"
  by (auto simp: post_def rand_tensor_def well_formed_def)

lemma succeeds_Linear_init:
  "0 \<le> i \<Longrightarrow> 0 \<le> out \<Longrightarrow> succeeds (Linear_init i out b)"
  unfolding Linear_init_def
  by (auto intro!: succeeds_bnd succeeds_rand_tensor succeeds_ret)

lemma post_Linear_init:
  "post (Linear_init i out b) (\<lambda>l. 0 \<le> i \<and> 0 \<le> out
      \<and> shape (weight l) = [nat out, nat i] \<and> well_formed (weight l)
      \<and> (if b then \<exists>bb. bias l = Some bb \<and> shape bb = [nat out] \<and> well_formed bb
          else bias l = None))"
  unfolding Linear_init_def
  by (auto intro!: post_bnd [OF post_rand_tensor] post_ret post_raise)

lemma succeeds_Dropout_init: "0 \<le> p \<Longrightarrow> p \<le> 1 \<Longrightarrow> succeeds (Dropout_init p)"
  by (simp add: Dropout_init_def succeeds_ret)

lemma post_Dropout_init: "post (Dropout_init p) (\<lambda>q. q = p \<and> 0 \<le> p \<and> p \<le> 1)"
  by (auto simp: Dropout_init_def intro!: post_ret post_raise)

lemma succeeds_LayerNorm_init: "0 \<le> d \<Longrightarrow> succeeds (LayerNorm_init d)"
  by (simp add: LayerNorm_init_def succeeds_ret)

lemma post_LayerNorm_init:
  "post (LayerNorm_init d) (\<lambda>l. normalized_shape l = nat d
      \<and> shape (ln_weight l) = [nat d] \<and> shape (ln_bias l) = [nat d])"
  by (auto simp: LayerNorm_init_def shape_full intro!: post_ret post_raise)

lemma succeeds_MLP_init:
  assumes "0 \<le> i" "0 \<le> or_default h i" "0 \<le> or_default out i" "0 \<le> p" "p \<le> 1"
  shows "succeeds (MLP_init i h out p)"
  unfolding MLP_init_def Let_def
  by (intro succeeds_bnd succeeds_Linear_init succeeds_Dropout_init succeeds_ret assms)

lemma post_MLP_init: "post (MLP_init i h out p) (\<lambda>m. mlp_dropout m = p)"
  unfolding MLP_init_def Let_def
  by (intro post_bnd [OF post_True] post_bnd [OF post_Dropout_init] post_ret) simp

lemma succeeds_Attention_init:
  assumes "0 < d" "0 \<le> ap" "ap \<le> 1" "0 \<le> pp" "pp \<le> 1"
  shows "succeeds (Attention_init d nh ap pp)"
  unfolding Attention_init_def using assms
  by (auto intro!: succeeds_bnd succeeds_Linear_init succeeds_Dropout_init succeeds_ret)

lemma post_Attention_init:
  "post (Attention_init d nh ap pp) (\<lambda>a. 0 < d \<and> num_heads a = nh
      \<and> scale a = 1 / sqrt (real_of_int d) \<and> attn_dropout a = ap \<and> proj_dropout a = pp
      \<and> shape (weight (qkv a)) = [nat (d * 3), nat d] \<and> bias (qkv a) = None
      \<and> shape (weight (out_proj a)) = [nat d, nat d]
      \<and> (\<exists>bb. bias (out_proj a) = Some bb \<and> shape bb = [nat d]))"
proof (cases "d = 0")
  case True
  then show ?thesis by (simp add: Attention_init_def post_raise)
next
  case False
  show ?thesis
    unfolding Attention_init_def using False
    apply simp
    apply (rule post_bnd [OF post_Linear_init])
    apply (rule post_bnd [OF post_Dropout_init])
    apply (rule post_bnd [OF post_Linear_init])
    apply (rule post_bnd [OF post_Dropout_init])
    apply (rule post_ret)
    apply auto
    done
qed

lemma succeeds_Block_init:
  assumes "0 < d" "0 \<le> r" "0 \<le> p" "p \<le> 1"
  shows "succeeds (Block_init d nh r p)"
proof -
  have "0 \<le> or_default (Some (d * r)) d" "0 \<le> or_default None d"
    using assms by (simp_all add: or_default_def)
  then show ?thesis
    unfolding Block_init_def using assms
    by (intro succeeds_bnd succeeds_LayerNorm_init succeeds_Attention_init succeeds_MLP_init
          succeeds_ret) simp_all
qed

lemma post_Block_init:
  "post (Block_init d nh r p) (\<lambda>b. Block_dropouts b = [p, p, p] \<and> 0 < d \<and> num_heads (attn b) = nh
      \<and> scale (attn b) = 1 / sqrt (real_of_int d))"
  unfolding Block_init_def
  apply (rule post_bnd [OF post_True])
  apply (rule post_bnd [OF post_Attention_init])
  apply (rule post_bnd [OF post_True])
  apply (rule post_bnd [OF post_MLP_init])
  apply (rule post_ret)
  apply (simp add: Block_dropouts_def)
  done

lemma succeeds_make_blocks:
  assumes "0 < d" "0 \<le> r" "0 \<le> p" "p \<le> 1"
  shows "succeeds (make_blocks n d nh r p)"
  by (induction n) (auto intro!: succeeds_ret succeeds_bnd succeeds_Block_init assms)

lemma post_make_blocks:
  "post (make_blocks n d nh r p)
     (\<lambda>bs. length bs = n \<and> list_all (\<lambda>b. Block_dropouts b = [p, p, p]) bs)"
proof (induction n)
  case 0
  show ?case by (simp add: post_ret)
next
  case (Suc n)
  show ?case
    apply simp
    apply (rule post_bnd [OF post_Block_init])
    apply (rule post_bnd [OF Suc.IH])
    apply (rule post_ret)
    apply simp
    done
qed

lemma succeeds_zeros: "list_all (\<lambda>z. 0 \<le> z) sizes \<Longrightarrow> succeeds (zeros sizes)"
  by (auto simp: zeros_def succeeds_ret list_ex_iff list_all_iff)

text \<open>
  \<open>ViT.__init__\<close> returns a model whenever the patch size divides the image size and
  the remaining arguments are sizes the layers accept; the number of heads plays no
  part.
\<close>

lemma succeeds_ViT_init:
  assumes "psize \<noteq> 0" "img_size mod psize = 0" "0 \<le> in_ch" "0 \<le> num_classes"
    "0 < embed_dim" "0 \<le> mlp_ratio" "0 \<le> drop_rate" "drop_rate \<le> 1"
  shows "succeeds (ViT_init img_size psize in_ch num_classes use_mlp embed_dim depth nheads
           mlp_ratio drop_rate)"
proof -
  have pd: "0 \<le> in_ch * psize * psize"
    using assms(3) by (simp add: mult.assoc)
  have od: "0 \<le> or_default (Some (embed_dim * mlp_ratio)) embed_dim"
    "0 \<le> or_default (Some num_classes) embed_dim"
    using assms by (simp_all add: or_default_def)
  have hd: "succeeds (if use_mlp
        then bnd (MLP_init embed_dim (Some (embed_dim * mlp_ratio)) (Some num_classes) 0)
               (\<lambda>m. ret (MLP_head m))
        else bnd (Linear_init embed_dim num_classes True) (\<lambda>l. ret (Linear_head l)))"
    using assms od
    by (auto intro!: succeeds_bnd succeeds_MLP_init succeeds_Linear_init succeeds_ret)
  have tr: "succeeds (Transformer_init depth embed_dim nheads mlp_ratio drop_rate)"
    unfolding Transformer_init_def
    by (intro succeeds_bnd succeeds_make_blocks succeeds_ret assms)
  show ?thesis
    unfolding ViT_init_def Let_def using assms(1,2)
    apply (simp split del: if_split)
    apply (intro succeeds_bnd succeeds_Linear_init succeeds_zeros succeeds_LayerNorm_init
        tr hd succeeds_ret)
    using assms pd apply simp_all
    done
qed

lemma post_ViT_init:
  "post (ViT_init img_size psize in_ch num_classes use_mlp embed_dim depth nheads mlp_ratio
          drop_rate)
     (\<lambda>m. psize \<noteq> 0 \<and> img_size mod psize = 0
        \<and> list_all (\<lambda>p. p = drop_rate \<or> p = 0) (ViT_dropouts m))"
proof -
  have tr: "post (Transformer_init depth embed_dim nheads mlp_ratio drop_rate)
      (\<lambda>t. list_all (\<lambda>b. Block_dropouts b = [drop_rate, drop_rate, drop_rate]) (blocks t))"
    unfolding Transformer_init_def
    by (rule post_bnd [OF post_make_blocks]) (simp add: post_ret)
  have hd: "post (if use_mlp
        then bnd (MLP_init embed_dim (Some (embed_dim * mlp_ratio)) (Some num_classes) 0)
               (\<lambda>m. ret (MLP_head m))
        else bnd (Linear_init embed_dim num_classes True) (\<lambda>l. ret (Linear_head l)))
      (\<lambda>h. list_all (\<lambda>p. p = 0) (Head_dropouts h))"
  proof (cases use_mlp)
    case True
    have "post (bnd (MLP_init embed_dim (Some (embed_dim * mlp_ratio)) (Some num_classes) 0)
               (\<lambda>m. ret (MLP_head m))) (\<lambda>h. list_all (\<lambda>p. p = 0) (Head_dropouts h))"
      by (rule post_bnd [OF post_MLP_init]) (simp add: post_ret Head_dropouts_def)
    with True show ?thesis by simp
  next
    case False
    have "post (bnd (Linear_init embed_dim num_classes True) (\<lambda>l. ret (Linear_head l)))
        (\<lambda>h. list_all (\<lambda>p. p = 0) (Head_dropouts h))"
      by (rule post_bnd [OF post_True]) (simp add: post_ret Head_dropouts_def)
    with False show ?thesis by simp
  qed
  have cc: "list_all (\<lambda>p. p = drop_rate \<or> p = 0) (concat (map Block_dropouts bs))"
    if "list_all (\<lambda>b. Block_dropouts b = [drop_rate, drop_rate, drop_rate]) bs" for bs
    using that by (induction bs) auto
  have hh: "list_all (\<lambda>p. p = drop_rate \<or> p = 0) ps" if "list_all (\<lambda>p. p = 0) ps" for ps :: "real list"
    using that by (induction ps) auto
  show ?thesis
  proof (cases "psize = 0 \<or> img_size mod psize \<noteq> 0")
    case True
    then show ?thesis by (auto simp: ViT_init_def post_raise)
  next
    case False
    then show ?thesis
      unfolding ViT_init_def Let_def
      apply (simp split del: if_split)
      apply (rule post_bnd [OF post_True])
      apply (rule post_bnd [OF post_True])
      apply (rule post_bnd [OF post_True])
      apply (rule post_bnd [OF tr])
      apply (rule post_bnd [OF post_True])
      apply (rule post_bnd [OF hd])
      apply (rule post_ret)
      apply (simp add: ViT_dropouts_def cc hh)
      done
  qed
qed

section \<open>Shapes through the attention\<close>

lemma tensor_shape_id: "t\<lparr>shape := shape t\<rparr> = t"
  by simp

lemma transpose_t_2: 
  assumes "shape w = [a, b]"
  shows "transpose_t w 0 1 = Inr (tabulate [b, a] (\<lambda>idx. get w (idx[0 := idx ! 1, 1 := idx ! 0])))"
  using assms by (simp add: transpose_t_def wrap_dim_def bindE_def)

lemma transpose_t_last2:
  assumes "shape k = [B, H, N, K]"
  shows "transpose_t k (-2) (-1) = Inr (tabulate [B, H, K, N] (\<lambda>idx. get k (idx[2 := idx ! 3, 3 := idx ! 2])))"
  using assms by (simp add: transpose_t_def wrap_dim_def bindE_def)

lemma transpose_t_12:
  assumes "shape k = [B, H, N, K]"
  shows "transpose_t k 1 2 = Inr (tabulate [B, N, H, K] (\<lambda>idx. get k (idx[1 := idx ! 2, 2 := idx ! 1])))"
  using assms by (simp add: transpose_t_def wrap_dim_def bindE_def)

lemma broadcast_shapes_same: "broadcast_shapes s s = Inr s"
proof -
  have "bcast_rev r r = Inr r" for r by (induction r) (simp_all add: bindE_def)
  then show ?thesis by (simp add: broadcast_shapes_def bindE_def)
qed

lemma broadcast_shapes_Nil: "broadcast_shapes s [] = Inr s"
  by (cases "rev s") (simp_all add: broadcast_shapes_def bindE_def)

lemma matmul_3_2:
  assumes "shape a = [B, N, D]" "shape b = [D, E]"
  shows "matmul a b = Inr (tabulate [B, N, E]
           (\<lambda>idx. \<Sum>k\<leftarrow>[0..<D]. bget a (butlast idx @ [k]) * bget b (butlast (butlast idx) @ [k, last idx])))"
proof -
  have eq: "a\<lparr>shape := [B, N, D]\<rparr> = a" "b\<lparr>shape := [D, E]\<rparr> = b"
    using assms by (metis tensor_shape_id)+
  show ?thesis
    using assms by (simp add: matmul_def Let_def broadcast_shapes_Nil bindE_def tabulate_def eq)
qed

lemma matmul_4_4:
  assumes "shape a = [B, H, N, K]" "shape b = [B, H, K, P]"
  shows "matmul a b = Inr (tabulate [B, H, N, P]
           (\<lambda>idx. \<Sum>k\<leftarrow>[0..<K]. bget a (butlast idx @ [k]) * bget b (butlast (butlast idx) @ [k, last idx])))"
proof -
  have eq: "a\<lparr>shape := [B, H, N, K]\<rparr> = a" "b\<lparr>shape := [B, H, K, P]\<rparr> = b"
    using assms by (metis tensor_shape_id)+
  show ?thesis
    using assms by (simp add: matmul_def Let_def broadcast_shapes_same bindE_def tabulate_def eq mult.assoc)
qed

lemma add_bias_3:
  assumes "shape y = [B, N, E]" "shape bb = [E]"
  shows "add y bb = Inr (tabulate [B, N, E] (\<lambda>idx. bget y idx + bget bb idx))"
  using assms by (simp add: add_def broadcast_shapes_def bindE_def)

lemma add_same:
  assumes "shape y = s" "shape z = s"
  shows "add y z = Inr (tabulate s (\<lambda>idx. bget y idx + bget z idx))"
  using assms by (simp add: add_def broadcast_shapes_same bindE_def)

lemma Linear_forward_3:
  assumes "shape (weight l) = [E, D]" "shape x = [B, N, D]"
    and "bias l = None \<or> (\<exists>bb. bias l = Some bb \<and> shape bb = [E])"
  shows "\<exists>y. Linear_forward l x = Inr y \<and> shape y = [B, N, E] \<and> well_formed y"
proof -
  let ?wt = "tabulate [D, E] (\<lambda>idx. get (weight l) (idx[0 := idx ! 1, 1 := idx ! 0]))"
  have t: "transpose_t (weight l) 0 1 = Inr ?wt" using assms(1) by (rule transpose_t_2)
  obtain y where m: "matmul x ?wt = Inr y" and y: "shape y = [B, N, E]" "well_formed y"
    using matmul_3_2 [of x B N D ?wt E] assms(2)
    by (simp add: shape_tabulate well_formed_tabulate)
  from assms(3) show ?thesis
  proof
    assume "bias l = None"
    then show ?thesis using t m y by (simp add: Linear_forward_def bindE_def)
  next
    assume "\<exists>bb. bias l = Some bb \<and> shape bb = [E]"
    then obtain bb where bb: "bias l = Some bb" "shape bb = [E]" by blast
    from add_bias_3 [OF y(1) bb(2)] show ?thesis
      using t m bb by (simp add: Linear_forward_def bindE_def shape_tabulate well_formed_tabulate)
  qed
qed


lemma prod_list_map_int: "prod_list (map int ns) = int (prod_list ns)"
  by (induction ns) simp_all

lemma reshape_nat:
  assumes "prod_list ns = prod_list (shape t)"
  shows "reshape t (map int ns) = Inr (t\<lparr>shape := ns\<rparr>)"
proof -
  have "\<not> list_ex (\<lambda>d. d < -1) (map int ns)" by (auto simp: list_ex_iff)
  moreover have "filter (\<lambda>d. d = -1) (map int ns) = []" by (auto simp: filter_empty_conv)
  moreover have "map nat (map int ns) = ns" by (simp add: map_idI)
  ultimately show ?thesis using assms by (simp add: reshape_def Let_def prod_list_map_int)
qed

lemma permute_20314:
  assumes "shape t = [s0, s1, s2, s3, s4]"
  shows "permute t [2, 0, 3, 1, 4] = Inr (tabulate [s2, s0, s3, s1, s4]
           (\<lambda>idx. get t [idx ! 1, idx ! 3, idx ! 0, idx ! 2, idx ! 4]))"
proof -
  have u: "[0..<5] = [0, 1, 2, 3, 4]" by (simp add: upt_rec)
  show ?thesis
    using assms by (simp add: permute_def Let_def wrap_dim_def bindE_def u eval_nat_numeral)
qed

lemma unpack3_Inr:
  assumes "shape t = 3 # s"
  shows "unpack3 t = Inr (select0 t 0, select0 t 1, select0 t 2)"
proof -
  have u: "[0..<3] = [0, 1, 2]" by (simp add: upt_rec)
  show ?thesis using assms by (simp add: unpack3_def unbind0_def bindE_def u)
qed

lemma shape_select0: "shape (select0 t i) = tl (shape t)"
  by (simp add: select0_def Let_def)

lemma softmax_last4:
  assumes "shape t = [B, H, N, M]"
  shows "softmax t (-1) = Inr (tabulate [B, H, N, M]
          (\<lambda>idx. exp (get t idx) / (\<Sum>j\<leftarrow>[0..<M]. exp (get t (idx[3 := j])))))"
  using assms by (simp add: softmax_def wrap_dim_def bindE_def)

lemma dropout_Inr: "\<exists>y s'. dropout p training x s = Inr (y, s') \<and> shape y = shape x"
  by (simp add: dropout_def)

lemma dropout_well_formed:
  "\<exists>y s'. dropout p training x s = Inr (y, s') \<and> shape y = shape x
      \<and> (well_formed x \<longrightarrow> well_formed y)"
  by (simp add: dropout_def well_formed_def)

lemma shape_smul: "shape (smul t c) = shape t"
  by (simp add: smul_def)

lemma Attention_qkv_Inr:
  assumes x: "shape x = [B, N, D]"
    and w: "shape (weight (qkv a)) = [3 * D, D]" "bias (qkv a) = None"
    and h: "num_heads a = int H" "0 < H" "H dvd D"
  shows "\<exists>q k v. Attention_qkv a x = Inr (q, k, v) \<and> shape q = [B, H, N, D div H]
           \<and> shape k = [B, H, N, D div H] \<and> shape v = [B, H, N, D div H]"
proof -
  obtain y where y: "Linear_forward (qkv a) x = Inr y" "shape y = [B, N, 3 * D]"
    using Linear_forward_3 [OF w(1) x] w(2) by blast
  have hd: "H * (D div H) = D" using h(3) by simp
  have "B * N * 3 * H * (D div H) = B * N * (3 * (H * (D div H)))" by (simp add: mult.assoc)
  then have pr: "B * N * 3 * H * (D div H) = B * N * (3 * D)" by (simp only: hd)
  have dims: "[int B, int N, 3, int H, int D div int H] = map int [B, N, 3, H, D div H]"
    by (simp add: zdiv_int)
  have r: "reshape y [int B, int N, 3, int H, int D div int H] =
      Inr (y\<lparr>shape := [B, N, 3, H, D div H]\<rparr>)"
    unfolding dims using pr y(2) by (intro reshape_nat) (simp add: mult.assoc)
  let ?y5 = "y\<lparr>shape := [B, N, 3, H, D div H]\<rparr>"
  let ?p = "tabulate [3, B, H, N, D div H]
           (\<lambda>idx. get ?y5 [idx ! 1, idx ! 3, idx ! 0, idx ! 2, idx ! 4])"
  have p: "permute ?y5 [2, 0, 3, 1, 4] = Inr ?p"
    by (rule permute_20314) simp
  have u: "unpack3 ?p = Inr (select0 ?p 0, select0 ?p 1, select0 ?p 2)"
    by (rule unpack3_Inr) (simp add: shape_tabulate)
  have "Attention_qkv a x = Inr (select0 ?p 0, select0 ?p 1, select0 ?p 2)"
    using x y(1) h(1,2) r p u by (simp add: Attention_qkv_def bindE_def)
  then show ?thesis by (simp add: shape_select0 shape_tabulate)
qed


lemma bnd_Inr: "m s = Inr (v, s') \<Longrightarrow> bnd m k s = k v s'"
  by (simp add: bnd_def)

lemma bnd_Inl: "m s = Inl e \<Longrightarrow> bnd m k s = Inl e"
  by (simp add: bnd_def)

lemma lift_Inr: "lift (Inr v) s = Inr (v, s)"
  by (simp add: lift_def)

lemma lift_Inl: "lift (Inl e) s = Inl e"
  by (simp add: lift_def)

lemma bnd_lift_Inr: "bnd (lift (Inr v)) k s = k v s"
  by (simp add: bnd_def lift_def)

lemma bnd_lift_Inl: "bnd (lift (Inl e)) k s = Inl e"
  by (simp add: bnd_def lift_def)

lemma notice_Inr:
  "\<exists>s'. (if msk \<noteq> None then py_print msg else ret ()) s = Inr ((), s')"
  by (simp add: py_print_def ret_def)

lemma Attention_dot_Inr:
  assumes "shape q = [B, H, N, K]" "shape k = [B, H, N, K]"
  shows "\<exists>dot. Attention_dot a q k = Inr dot \<and> shape dot = [B, H, N, N]"
  using assms transpose_t_last2 [OF assms(2)]
    matmul_4_4 [of q B H N K "tabulate [B, H, K, N] (\<lambda>idx. get k (idx[2 := idx ! 3, 3 := idx ! 2]))" N]
  by (simp add: Attention_dot_def bindE_def shape_tabulate shape_smul)

lemma Attention_forward_Inr:
  assumes x: "shape x = [B, N, D]"
    and w: "shape (weight (qkv a)) = [3 * D, D]" "bias (qkv a) = None"
    and h: "num_heads a = int H" "0 < H" "H dvd D"
    and o: "shape (weight (out_proj a)) = [D, D]"
      "bias (out_proj a) = None \<or> (\<exists>bb. bias (out_proj a) = Some bb \<and> shape bb = [D])"
  shows "\<exists>y s'. Attention_forward a training x msk s = Inr (y, s') \<and> shape y = [B, N, D]
           \<and> well_formed y"
proof -
  obtain q k v where qkv: "Attention_qkv a x = Inr (q, k, v)"
    and sh: "shape q = [B, H, N, D div H]" "shape k = [B, H, N, D div H]"
      "shape v = [B, H, N, D div H]"
    using Attention_qkv_Inr [OF x w h] by blast
  obtain dot where dot: "Attention_dot a q k = Inr dot" "shape dot = [B, H, N, N]"
    using Attention_dot_Inr [OF sh(1,2)] by blast
  obtain s1 where s1: "(if msk \<noteq> None then py_print ''Mask is yet to be implemented.'' else ret ()) s
      = Inr ((), s1)"
    using notice_Inr by blast
  obtain sm where sm: "softmax dot (-1) = Inr sm" "shape sm = [B, H, N, N]"
    using softmax_last4 [OF dot(2)] by (simp add: shape_tabulate)
  obtain aw s2 where aw: "dropout (attn_dropout a) training sm s1 = Inr (aw, s2)"
    "shape aw = [B, H, N, N]"
    using dropout_Inr [of "attn_dropout a" training sm s1] sm(2) by auto
  obtain av where av: "matmul aw v = Inr av" "shape av = [B, H, N, D div H]"
    using matmul_4_4 [OF aw(2) sh(3)] by (simp add: shape_tabulate)
  obtain avt where avt: "transpose_t av 1 2 = Inr avt" "shape avt = [B, N, H, D div H]"
    using transpose_t_12 [OF av(2)] by (simp add: shape_tabulate)
  have "H * (D div H) = D" using h(3) by simp
  then have "prod_list [B, N, D] = prod_list (shape avt)"
    by (simp add: avt(2))
  from reshape_nat [OF this] have r: "reshape avt (map int (shape x)) = Inr (avt\<lparr>shape := [B, N, D]\<rparr>)"
    by (simp add: x)
  obtain y where y: "Linear_forward (out_proj a) (avt\<lparr>shape := [B, N, D]\<rparr>) = Inr y"
    "shape y = [B, N, D]" "well_formed y"
    using Linear_forward_3 [OF o(1), of "avt\<lparr>shape := [B, N, D]\<rparr>" B N] o(2) by auto
  obtain z s3 where z: "dropout (proj_dropout a) training y s2 = Inr (z, s3)" "shape z = [B, N, D]"
    "well_formed z"
    using dropout_well_formed [of "proj_dropout a" training y s2] y(2,3) by auto
  note steps =
    bnd_Inr [of "if msk \<noteq> None then py_print ''Mask is yet to be implemented.'' else ret ()" s, OF s1]
    bnd_Inr [of "dropout (attn_dropout a) training sm" s1, OF aw(1)]
  have "Attention_forward a training x msk s = Inr (z, s3)"
    unfolding Attention_forward_def
    by (simp only: qkv dot sm av avt r y z(1) bnd_lift_Inr steps prod.case)
  with z(2,3) show ?thesis by blast
qed

lemma reshape_negative: "list_ex (\<lambda>d. d < -1) dims \<Longrightarrow> reshape t dims = Inl RuntimeError"
  by (simp add: reshape_def)

lemma reshape_mismatch:
  assumes "list_all (\<lambda>d. 0 \<le> d) dims" "prod_list dims \<noteq> int (prod_list (shape t))"
  shows "reshape t dims = Inl RuntimeError"
proof -
  have "\<not> list_ex (\<lambda>d. d < -1) dims" using assms(1) by (auto simp: list_ex_iff list_all_iff)
  moreover have "filter (\<lambda>d. d = -1) dims = []"
    using assms(1) by (auto simp: filter_empty_conv list_all_iff)
  ultimately show ?thesis using assms(2) by (simp add: reshape_def Let_def)
qed

lemma Attention_qkv_indivisible:
  assumes x: "shape x = [B, N, D]" "0 < B" "0 < N"
    and w: "shape (weight (qkv a)) = [3 * D, D]" "bias (qkv a) = None"
    and h: "\<not> num_heads a dvd int D"
  shows "Attention_qkv a x = Inl (if num_heads a = 0 then ZeroDivisionError else RuntimeError)"
proof -
  obtain y where y: "Linear_forward (qkv a) x = Inr y" "shape y = [B, N, 3 * D]"
    using Linear_forward_3 [OF w(1) x(1)] w(2) by blast
  show ?thesis
  proof (cases "num_heads a = 0")
    case True
    then show ?thesis using x(1) y(1) by (simp add: Attention_qkv_def bindE_def)
  next
    case False
    let ?dims = "[int B, int N, 3, num_heads a, int D div num_heads a]"
    have "reshape y ?dims = Inl RuntimeError"
    proof (cases "num_heads a < 0")
      case True
      have "num_heads a \<noteq> -1" using h by auto
      with True have "list_ex (\<lambda>d. d < -1) ?dims" by simp
      then show ?thesis by (rule reshape_negative)
    next
      case False
      with \<open>num_heads a \<noteq> 0\<close> have pos: "0 < num_heads a" by simp
      have nn: "list_all (\<lambda>d. 0 \<le> d) ?dims"
        using pos by (simp add: pos_imp_zdiv_nonneg_iff)
      have "num_heads a * (int D div num_heads a) \<noteq> int D"
        using h by (metis dvd_triv_left)
      moreover have "num_heads a * (int D div num_heads a) + int D mod num_heads a = int D"
        by (rule mult_div_mod_eq)
      moreover have "0 \<le> int D mod num_heads a" using pos by simp
      ultimately have lt: "num_heads a * (int D div num_heads a) < int D" by linarith
      have "prod_list ?dims = int B * int N * 3 * (num_heads a * (int D div num_heads a))"
        by (simp add: mult.assoc)
      also have "\<dots> \<noteq> int B * int N * 3 * int D"
        using lt x(2,3) by simp
      finally have "prod_list ?dims \<noteq> int (prod_list (shape y))"
        by (simp add: y(2) mult.assoc)
      with nn show ?thesis by (rule reshape_mismatch)
    qed
    with False show ?thesis using x(1) y(1) by (simp add: Attention_qkv_def bindE_def)
  qed
qed

lemma Attention_forward_indivisible:
  assumes "shape x = [B, N, D]" "0 < B" "0 < N"
    and "shape (weight (qkv a)) = [3 * D, D]" "bias (qkv a) = None"
    and "\<not> num_heads a dvd int D"
  shows "Attention_forward a training x msk s =
           Inl (if num_heads a = 0 then ZeroDivisionError else RuntimeError)"
  unfolding Attention_forward_def Attention_qkv_indivisible [OF assms]
  by (rule bnd_lift_Inl)

lemma map2_valid:
  fixes idx s :: "nat list"
  shows "list_all2 (\<lambda>i n. i < n) idx s \<Longrightarrow> map2 (\<lambda>n i. if n = 1 then 0 else i) s idx = idx"
  by (induction rule: list_all2_induct) auto

lemma bget_valid:
  assumes "valid_index (shape t) idx"
  shows "bget t idx = get t idx"
proof -
  from assms have l: "list_all2 (\<lambda>i n. i < n) idx (shape t)" by (simp add: valid_index_def)
  then have "length idx = length (shape t)" by (rule list_all2_lengthD)
  then have "drop (length idx - length (shape t)) idx = idx" by simp
  then show ?thesis unfolding bget_def by (simp only: map2_valid [OF l])
qed

lemma get_smul:
  "ravel (shape t) idx < length (data t) \<Longrightarrow> get (smul t c) idx = get t idx * c"
  by (simp add: get_def smul_def)

lemma Attention_dot_get:
  assumes q: "shape q = [B, H, N, K]" and k: "shape k = [B, H, N, K]"
    and i: "b < B" "h < H" "i < N" "j < N"
  shows "\<exists>dot. Attention_dot a q k = Inr dot \<and> shape dot = [B, H, N, N] \<and> well_formed dot
     \<and> get dot [b, h, i, j] = (\<Sum>d\<leftarrow>[0..<K]. get q [b, h, i, d] * get k [b, h, j, d]) * scale a"
proof -
  let ?kt = "tabulate [B, H, K, N] (\<lambda>idx. get k (idx[2 := idx ! 3, 3 := idx ! 2]))"
  let ?f = "\<lambda>idx. \<Sum>d\<leftarrow>[0..<K]. bget q (butlast idx @ [d]) * bget ?kt (butlast (butlast idx) @ [d, last idx])"
  let ?qk = "tabulate [B, H, N, N] ?f"
  have t: "transpose_t k (-2) (-1) = Inr ?kt" using k by (rule transpose_t_last2)
  have m: "matmul q ?kt = Inr ?qk"
    using matmul_4_4 [OF q, of ?kt N] by (simp add: shape_tabulate)
  have d: "Attention_dot a q k = Inr (smul ?qk (scale a))"
    by (simp add: Attention_dot_def t m bindE_def)
  have v: "valid_index [B, H, N, N] [b, h, i, j]" using i by (simp add: valid_index_def)
  have el: "bget q [b, h, i, d] * bget ?kt [b, h, d, j] = get q [b, h, i, d] * get k [b, h, j, d]"
    if "d < K" for d
  proof -
    have "valid_index (shape q) [b, h, i, d]" "valid_index [B, H, K, N] [b, h, d, j]"
      using i that q by (simp_all add: valid_index_def)
    then show ?thesis by (simp add: bget_valid shape_tabulate get_tabulate)
  qed
  have me: "map (\<lambda>d. bget q [b, h, i, d] * bget ?kt [b, h, d, j]) [0..<K] =
        map (\<lambda>d. get q [b, h, i, d] * get k [b, h, j, d]) [0..<K]"
    by (rule map_cong [OF refl]) (simp add: el)
  have "?f [b, h, i, j] = sum_list (map (\<lambda>d. bget q [b, h, i, d] * bget ?kt [b, h, d, j]) [0..<K])"
    by simp
  then have "?f [b, h, i, j] = (\<Sum>d\<leftarrow>[0..<K]. get q [b, h, i, d] * get k [b, h, j, d])"
    by (simp only: me)
  then have "get ?qk [b, h, i, j] = (\<Sum>d\<leftarrow>[0..<K]. get q [b, h, i, d] * get k [b, h, j, d])"
    using get_tabulate [OF v, of ?f] by simp
  moreover have "ravel (shape ?qk) [b, h, i, j] < length (data ?qk)"
    using ravel_less [OF v] well_formed_tabulate [of "[B, H, N, N]" ?f]
    by (simp add: shape_tabulate well_formed_def)
  ultimately have "get (smul ?qk (scale a)) [b, h, i, j] =
      (\<Sum>d\<leftarrow>[0..<K]. get q [b, h, i, d] * get k [b, h, j, d]) * scale a"
    by (simp add: get_smul)
  moreover have "shape (smul ?qk (scale a)) = [B, H, N, N]"
    by (simp add: shape_smul shape_tabulate)
  moreover have "well_formed (smul ?qk (scale a))"
    using well_formed_tabulate [of "[B, H, N, N]" ?f] by (simp add: well_formed_def smul_def)
  ultimately show ?thesis using d by blast
qed

lemma bindE_Inr: "bindE r f = Inr v \<Longrightarrow> \<exists>x. r = Inr x \<and> f x = Inr v"
  by (cases r) (simp_all add: bindE_def)

lemma mapE_length: "mapE f xs = Inr ys \<Longrightarrow> length ys = length xs"
proof (induction xs arbitrary: ys)
  case Nil
  then show ?case by simp
next
  case (Cons x xs)
  from Cons.prems have "bindE (f x) (\<lambda>y. bindE (mapE f xs) (\<lambda>zs. Inr (y # zs))) = Inr ys"
    by simp
  from bindE_Inr [OF this] obtain y where
    r: "bindE (mapE f xs) (\<lambda>zs. Inr (y # zs)) = Inr ys" by blast
  from bindE_Inr [OF r] obtain zs where "mapE f xs = Inr zs" "ys = y # zs" by auto
  with Cons.IH show ?case by simp
qed

lemma reshape_length: "reshape t dims = Inr r \<Longrightarrow> length (shape r) = length dims"
  by (auto simp: reshape_def Let_def split: if_splits list.splits)

lemma permute_length: "permute t dims = Inr r \<Longrightarrow> length (shape r) = length dims"
  by (auto simp: permute_def Let_def shape_tabulate split: if_splits dest!: bindE_Inr mapE_length)

lemma unpack3_shapes:
  assumes "unpack3 t = Inr (q, k, v)"
  shows "shape q = tl (shape t) \<and> shape k = tl (shape t) \<and> shape v = tl (shape t)"
proof -
  from bindE_Inr [OF assms [unfolded unpack3_def]] obtain ts where
    ts: "unbind0 t = Inr ts" and c: "(case ts of [q', k', v'] \<Rightarrow> Inr (q', k', v') | _ \<Rightarrow> Inl ValueError) = Inr (q, k, v)"
    by blast
  from c have "ts = [q, k, v]" by (auto split: list.splits)
  with ts have "\<exists>i j l. q = select0 t i \<and> k = select0 t j \<and> v = select0 t l"
    by (auto simp: unbind0_def split: list.splits)
  then show ?thesis by (auto simp: shape_select0)
qed

lemma Attention_qkv_shapes:
  assumes "Attention_qkv a x = Inr (q, k, v)"
  shows "\<exists>B H N K. shape q = [B, H, N, K] \<and> shape k = [B, H, N, K] \<and> shape v = [B, H, N, K]"
proof -
  from assms obtain b n c where x: "shape x = [b, n, c]"
    by (auto simp: Attention_qkv_def split: list.splits)
  from assms x obtain y y5 p where
    "reshape y [int b, int n, 3, num_heads a, int c div num_heads a] = Inr y5"
    "permute y5 [2, 0, 3, 1, 4] = Inr p" "unpack3 p = Inr (q, k, v)"
    by (auto simp: Attention_qkv_def split: if_splits dest!: bindE_Inr)
  then have "length (shape p) = 5" and s: "shape q = tl (shape p)" "shape k = tl (shape p)"
    "shape v = tl (shape p)"
    using permute_length [of y5 "[2, 0, 3, 1, 4]" p] unpack3_shapes [of p q k v] by auto
  then obtain s0 B H N K where "shape p = [s0, B, H, N, K]"
    by (auto simp: length_Suc_conv eval_nat_numeral)
  with s show ?thesis by simp
qed

lemma Block_forward_spec:
  "Block_forward b training x msk =
     spec_Block (ln1 b) (\<lambda>u. Attention_forward (attn b) training u msk)
                (ln2 b) (MLP_forward (mlp b) training) x"
  by (simp add: Block_forward_def spec_Block_def residual_def [abs_def] pre_norm_def [abs_def]
        bnd_assoc)

lemma scale_differs:
  fixes d nh :: int
  assumes "0 < d" "1 < nh" "nh dvd d"
  shows "1 / sqrt (real_of_int d) \<noteq> 1 / sqrt (real_of_int (d div nh))"
proof -
  from assms obtain k where k: "d = nh * k" by (auto simp: dvd_def)
  with assms have kp: "0 < k" by (simp add: zero_less_mult_iff)
  have dv: "d div nh = k" using k assms by simp
  have "k < d" using k kp assms by simp
  then have "sqrt (real_of_int k) < sqrt (real_of_int d)" by simp
  moreover have "0 < sqrt (real_of_int k)" using kp by simp
  ultimately have "1 / sqrt (real_of_int d) < 1 / sqrt (real_of_int k)"
    by (simp add: frac_less2)
  then have "1 / sqrt (real_of_int d) \<noteq> 1 / sqrt (real_of_int k)" by linarith
  then show ?thesis unfolding dv .
qed

lemma Attention_init_dims:
  assumes "Attention_init (int D) (int H) ap pp s = Inr (a, s')"
  shows "Attention_dims a D H"
  using postD [OF post_Attention_init assms]
  by (auto simp: Attention_dims_def nat_mult_distrib)

section \<open>A model whose heads do not divide its embedding dimension\<close>

lemma post_Block_init_dims:
  "post (Block_init d nh r p) (\<lambda>b. 0 < d \<and> normalized_shape (ln1 b) = nat d
      \<and> shape (ln_weight (ln1 b)) = [nat d] \<and> shape (ln_bias (ln1 b)) = [nat d]
      \<and> num_heads (attn b) = nh \<and> shape (weight (qkv (attn b))) = [3 * nat d, nat d]
      \<and> bias (qkv (attn b)) = None)"
  unfolding Block_init_def
  apply (rule post_bnd [OF post_LayerNorm_init])
  apply (rule post_bnd [OF post_Attention_init])
  apply (rule post_bnd [OF post_True])
  apply (rule post_bnd [OF post_True])
  apply (rule post_ret)
  apply (simp add: nat_mult_distrib)
  done

lemma post_make_blocks_dims:
  "post (make_blocks n d nh r p) (\<lambda>bs. length bs = n \<and> list_all (\<lambda>b. 0 < d \<and> normalized_shape (ln1 b) = nat d
      \<and> shape (ln_weight (ln1 b)) = [nat d] \<and> shape (ln_bias (ln1 b)) = [nat d]
      \<and> num_heads (attn b) = nh \<and> shape (weight (qkv (attn b))) = [3 * nat d, nat d]
      \<and> bias (qkv (attn b)) = None) bs)"
proof (induction n)
  case 0
  show ?case by (simp add: post_ret)
next
  case (Suc n)
  show ?case
    apply simp
    apply (rule post_bnd [OF post_Block_init_dims])
    apply (rule post_bnd [OF Suc.IH])
    apply (rule post_ret)
    apply simp
    done
qed

lemma post_zeros: "post (zeros sizes) (\<lambda>t. t = full (map nat sizes) 0)"
  by (auto simp: zeros_def intro!: post_ret post_raise)

lemma post_ViT_init_dims:
  "post (ViT_init img_size psize in_ch num_classes use_mlp embed_dim depth nheads mlp_ratio
          drop_rate)
     (\<lambda>m. patches m = ImgPatches_init psize
        \<and> shape (weight (patch_embed m)) = [nat embed_dim, nat (in_ch * psize * psize)]
        \<and> (\<exists>bb. bias (patch_embed m) = Some bb \<and> shape bb = [nat embed_dim])
        \<and> cls_emb m = full [1, 1, nat embed_dim] 0
        \<and> length (blocks (transfomer m)) = nat depth
        \<and> list_all (\<lambda>b. 0 < embed_dim \<and> normalized_shape (ln1 b) = nat embed_dim
              \<and> shape (ln_weight (ln1 b)) = [nat embed_dim]
              \<and> shape (ln_bias (ln1 b)) = [nat embed_dim]
              \<and> num_heads (attn b) = nheads
              \<and> shape (weight (qkv (attn b))) = [3 * nat embed_dim, nat embed_dim]
              \<and> bias (qkv (attn b)) = None) (blocks (transfomer m)))"
proof -
  have tr: "post (Transformer_init depth embed_dim nheads mlp_ratio drop_rate)
      (\<lambda>t. length (blocks t) = nat depth \<and> list_all (\<lambda>b. 0 < embed_dim \<and> normalized_shape (ln1 b) = nat embed_dim
              \<and> shape (ln_weight (ln1 b)) = [nat embed_dim]
              \<and> shape (ln_bias (ln1 b)) = [nat embed_dim]
              \<and> num_heads (attn b) = nheads
              \<and> shape (weight (qkv (attn b))) = [3 * nat embed_dim, nat embed_dim]
              \<and> bias (qkv (attn b)) = None) (blocks t))"
    unfolding Transformer_init_def
    by (rule post_bnd [OF post_make_blocks_dims]) (simp add: post_ret)
  show ?thesis
  proof (cases "psize = 0 \<or> img_size mod psize \<noteq> 0")
    case True
    then show ?thesis by (auto simp: ViT_init_def post_raise)
  next
    case False
    then show ?thesis
      unfolding ViT_init_def Let_def
      apply (simp split del: if_split)
      apply (rule post_bnd [OF post_Linear_init])
      apply (rule post_bnd [OF post_True])
      apply (rule post_bnd [OF post_zeros])
      apply (rule post_bnd [OF tr])
      apply (rule post_bnd [OF post_True])
      apply (rule post_bnd [OF post_True])
      apply (rule post_ret)
      apply auto
      done
  qed
qed

lemma expand_cls:
  "expand (full [1, 1, D] (0::real)) [int b, -1, -1] = Inr (tabulate [b, 1, D] (\<lambda>idx. bget (full [1, 1, D] 0) idx))"
  by (simp add: expand_def shape_full)

lemma ImgPatches_forward_Inr_shape:
  assumes "ImgPatches_forward p x = Inr y"
  shows "\<exists>b n d. shape y = [b, n, d] \<and> 0 < b \<and> hd (shape x) = b"
proof -
  from assms obtain b c h w where x: "shape x = [b, c, h, w]"
    by (auto simp: ImgPatches_forward_def split: list.splits)
  let ?dims = "[int b, -1, int c * patch_size p * patch_size p]"
  from assms x obtain t where r: "reshape t ?dims = Inr y"
    by (auto simp: ImgPatches_forward_def dest!: bindE_Inr)
  have z: "int c * patch_size p * patch_size p \<noteq> -1"
  proof
    assume "int c * patch_size p * patch_size p = -1"
    moreover have "0 \<le> int c * (patch_size p * patch_size p)" by simp
    ultimately show False by (simp add: mult.assoc)
  qed
  then have f: "filter (\<lambda>d. d = -1) ?dims = [-1]" by simp
  from r have "0 < nat (int b * (int c * patch_size p * patch_size p))
      \<and> shape y = [b, prod_list (shape t) div nat (int b * (int c * patch_size p * patch_size p)),
           nat (int c * patch_size p * patch_size p)]"
    using z by (auto simp: reshape_def Let_def split: if_splits)
  then have "0 < b" and "\<exists>n d. shape y = [b, n, d]"
    by (auto simp: zero_less_mult_iff)
  with x show ?thesis by auto
qed


lemma Linear_forward_Inr_shape:
  assumes "shape (weight l) = [E, D]" "\<exists>bb. bias l = Some bb \<and> shape bb = [E]"
    and "shape x = [B, N, K]" "Linear_forward l x = Inr y"
  shows "shape y = [B, N, E]"
proof (cases "K = D")
  case True
  from Linear_forward_3 [OF assms(1), of x B N] assms(2,3,4) True show ?thesis by auto
next
  case False
  have "transpose_t (weight l) 0 1 =
      Inr (tabulate [D, E] (\<lambda>idx. get (weight l) (idx[0 := idx ! 1, 1 := idx ! 0])))"
    using assms(1) by (rule transpose_t_2)
  moreover have "matmul x (tabulate [D, E] (\<lambda>idx. get (weight l) (idx[0 := idx ! 1, 1 := idx ! 0])))
      = Inl RuntimeError"
    using False assms(3) by (simp add: matmul_def Let_def shape_tabulate)
  ultimately have "Linear_forward l x = Inl RuntimeError"
    by (simp add: Linear_forward_def bindE_def)
  with assms(4) show ?thesis by simp
qed

lemma cat_Inr_shape:
  assumes "shape a = [b, 1, D]" "shape e = [b, n, D]" "cat a e 1 = Inr y"
  shows "shape y = [b, Suc n, D]"
  using assms by (auto simp: cat_def wrap_dim_def bindE_def shape_tabulate)

lemma iadd_Inr_shape: "iadd x y = Inr z \<Longrightarrow> shape z = shape x"
  by (auto simp: iadd_def shape_tabulate split: if_splits dest!: bindE_Inr)

lemma LayerNorm_forward_Inr_shape: "LayerNorm_forward l x = Inr y \<Longrightarrow> shape y = shape x"
  by (auto simp: LayerNorm_forward_def Let_def shape_tabulate split: if_splits)

lemma isl_bnd_lift:
  assumes "\<And>v. r = Inr v \<Longrightarrow> isl (k v s)"
  shows "isl (bnd (lift r) k s)"
  using assms by (cases r) (simp_all add: bnd_def lift_def)

lemma isl_bnd_Inl: "isl (m s) \<Longrightarrow> isl (bnd m k s)"
  by (cases "m s") (simp_all add: bnd_def)

lemma Block_forward_indivisible:
  assumes "shape x = [B, N, D]" "0 < B" "0 < N"
    and "shape (weight (qkv (attn b))) = [3 * D, D]" "bias (qkv (attn b)) = None"
    and "\<not> num_heads (attn b) dvd int D"
  shows "isl (Block_forward b training x msk s)"
  unfolding Block_forward_def
proof (rule isl_bnd_lift)
  fix x1
  assume "LayerNorm_forward (ln1 b) x = Inr x1"
  then have "shape x1 = [B, N, D]" using assms(1) by (simp add: LayerNorm_forward_Inr_shape)
  from Attention_forward_indivisible [OF this assms(2-6), of training msk s]
  show "isl (bnd (Attention_forward (attn b) training x1 msk)
          (\<lambda>a. bnd (lift (add x a))
                (\<lambda>y. bnd (lift (LayerNorm_forward (ln2 b) y))
                      (\<lambda>x2. bnd (MLP_forward (mlp b) training x2) (\<lambda>m. lift (add y m))))) s)"
    by (intro isl_bnd_Inl) simp
qed

lemma ViT_forward_indivisible:
  assumes p: "patches m = ImgPatches_init psize"
    and pe: "shape (weight (patch_embed m)) = [D, pd]"
      "\<exists>bb. bias (patch_embed m) = Some bb \<and> shape bb = [D]"
    and cls: "cls_emb m = full [1, 1, D] 0"
    and bl: "blocks (transfomer m) = blk # rest"
    and q: "shape (weight (qkv (attn blk))) = [3 * D, D]" "bias (qkv (attn blk)) = None"
    and h: "\<not> num_heads (attn blk) dvd int D"
  shows "isl (ViT_forward m training x msk s)"
proof (cases "shape x")
  case Nil
  then show ?thesis by (simp add: ViT_forward_def raise_def)
next
  case (Cons b bs)
  let ?c = "tabulate [b, 1, D] (\<lambda>idx. bget (full [1, 1, D] (0::real)) idx)"
  have e: "expand (cls_emb m) [int b, -1, -1] = Inr ?c" unfolding cls by (rule expand_cls)
  show ?thesis
    unfolding ViT_forward_def Cons list.case e bnd_lift_Inr
  proof (intro isl_bnd_lift)
    fix pt e xc xp
    assume pt: "ImgPatches_forward (patches m) x = Inr pt"
      and em: "Linear_forward (patch_embed m) pt = Inr e"
      and xc: "cat ?c e 1 = Inr xc" and xp: "iadd xc (pos_emb m) = Inr xp"
    from ImgPatches_forward_Inr_shape [OF pt] Cons obtain n d where
      s1: "shape pt = [b, n, d]" and b: "0 < b" by auto
    from Linear_forward_Inr_shape [OF pe s1 em] have s2: "shape e = [b, n, D]" .
    from cat_Inr_shape [OF _ s2 xc] have s3: "shape xc = [b, Suc n, D]" by (simp add: shape_tabulate)
    from iadd_Inr_shape [OF xp] s3 have s4: "shape xp = [b, Suc n, D]" by simp
    have "isl (Block_forward blk training xp msk s)"
      using Block_forward_indivisible [OF s4 b _ q h] by simp
    then have "isl (Transformer_forward (transfomer m) training xp msk s)"
      by (simp add: Transformer_forward_def bl isl_bnd_Inl)
    then show "isl (bnd (Transformer_forward (transfomer m) training xp msk)
              (\<lambda>xt. bnd (lift (select xt 1 0))
                     (\<lambda>x0. bnd (lift (LayerNorm_forward (norm_layer m) x0))
                            (Head_forward (out_head m) training))) s)"
      by (rule isl_bnd_Inl)
  qed
qed

section \<open>Running a block\<close>

lemma LayerNorm_forward_Inr:
  assumes "shape x = [B, N, D]" "normalized_shape l = D" "shape (ln_weight l) = [D]"
    "shape (ln_bias l) = [D]"
  shows "\<exists>y. LayerNorm_forward l x = Inr y \<and> shape y = [B, N, D]"
  using assms by (simp add: LayerNorm_forward_def Let_def shape_tabulate)

lemma shape_GELU_forward: "shape (GELU_forward x) = shape x"
  by (simp add: GELU_forward_def)

lemma MLP_forward_Inr:
  assumes "shape (weight (fc1 m)) = [Hd, D]" "\<exists>bb. bias (fc1 m) = Some bb \<and> shape bb = [Hd]"
    "shape (weight (fc2 m)) = [E, Hd]" "\<exists>bb. bias (fc2 m) = Some bb \<and> shape bb = [E]"
    "shape x = [B, N, D]"
  shows "\<exists>y s'. MLP_forward m training x s = Inr (y, s') \<and> shape y = [B, N, E]"
proof -
  obtain x1 where x1: "Linear_forward (fc1 m) x = Inr x1" "shape x1 = [B, N, Hd]"
    using Linear_forward_3 [OF assms(1) assms(5)] assms(2) by blast
  obtain x2 where x2: "Linear_forward (fc2 m) (GELU_forward x1) = Inr x2" "shape x2 = [B, N, E]"
    using Linear_forward_3 [OF assms(3), of "GELU_forward x1" B N] assms(4) x1(2)
    by (auto simp: shape_GELU_forward)
  obtain y s' where y: "dropout (mlp_dropout m) training x2 s = Inr (y, s')" "shape y = [B, N, E]"
    using dropout_Inr [of "mlp_dropout m" training x2 s] x2(2) by auto
  have "MLP_forward m training x s = Inr (y, s')"
    unfolding MLP_forward_def by (simp only: x1(1) x2(1) bnd_lift_Inr y(1))
  with y(2) show ?thesis by blast
qed

lemma add_same_get:
  assumes "shape u = shape w" "valid_index (shape u) idx"
  shows "\<exists>z. add u w = Inr z \<and> shape z = shape u \<and> get z idx = get u idx + get w idx"
proof -
  have "add u w = Inr (tabulate (shape u) (\<lambda>idx. bget u idx + bget w idx))"
    using assms(1) by (intro add_same) simp_all
  moreover have "get (tabulate (shape u) (\<lambda>idx. bget u idx + bget w idx)) idx
      = get u idx + get w idx"
    using assms by (simp add: get_tabulate bget_valid)
  ultimately show ?thesis by (simp add: shape_tabulate)
qed

lemma Block_forward_steps:
  assumes "LayerNorm_forward (ln1 b) x = Inr x1"
    "Attention_forward (attn b) training x1 msk s = Inr (a, s1)"
    "add x a = Inr y" "LayerNorm_forward (ln2 b) y = Inr x2"
    "MLP_forward (mlp b) training x2 s1 = Inr (f, s2)" "add y f = Inr z"
  shows "Block_forward b training x msk s = Inr (z, s2)"
  unfolding Block_forward_def
  by (simp only: assms(1,3,4,6) bnd_lift_Inr lift_Inr
      bnd_Inr [of "Attention_forward (attn b) training x1 msk" s, OF assms(2)]
      bnd_Inr [of "MLP_forward (mlp b) training x2" s1, OF assms(5)])

lemma block_ex_runs:
  "\<exists>x1 a s1 y x2 f s2 z. LayerNorm_forward (ln1 block_ex) tokens_ex = Inr x1
     \<and> Attention_forward (attn block_ex) True x1 (None :: unit option) st0 = Inr (a, s1)
     \<and> add tokens_ex a = Inr y \<and> LayerNorm_forward (ln2 block_ex) y = Inr x2
     \<and> MLP_forward (mlp block_ex) True x2 s1 = Inr (f, s2) \<and> add y f = Inr z
     \<and> shape z = [1, 2, 4]"
proof -
  have t: "shape tokens_ex = [1, 2, 4]" by (simp add: tokens_ex_def shape_full)
  have ln: "normalized_shape layer_norm_ex = 4" "shape (ln_weight layer_norm_ex) = [4]"
    "shape (ln_bias layer_norm_ex) = [4]"
    by (simp_all add: layer_norm_ex_def shape_full)
  have b: "ln1 block_ex = layer_norm_ex" "ln2 block_ex = layer_norm_ex"
    "attn block_ex = attention_ex"
    by (simp_all add: block_ex_def)
  obtain x1 where x1: "LayerNorm_forward (ln1 block_ex) tokens_ex = Inr x1" "shape x1 = [1, 2, 4]"
    using LayerNorm_forward_Inr [OF t ln] b by auto
  have d: "Attention_dims attention_ex 4 2"
    by (simp add: Attention_dims_def attention_ex_def linear_ex_def shape_full)
  then have o: "bias (out_proj attention_ex) = None
      \<or> (\<exists>bb. bias (out_proj attention_ex) = Some bb \<and> shape bb = [4])"
    by (auto simp: Attention_dims_def split: option.splits)
  have "\<exists>y s'. Attention_forward attention_ex True x1 (None :: unit option) st0 = Inr (y, s')
      \<and> shape y = [1, 2, 4] \<and> well_formed y"
    using d by (intro Attention_forward_Inr [where H = 2] o x1(2)) (simp_all add: Attention_dims_def)
  then obtain a s1 where a: "Attention_forward (attn block_ex) True x1 (None :: unit option) st0
      = Inr (a, s1)" "shape a = [1, 2, 4]"
    using b by auto
  obtain y where y: "add tokens_ex a = Inr y" "shape y = [1, 2, 4]"
    using add_same [OF t a(2)] by (simp add: shape_tabulate)
  obtain x2 where x2: "LayerNorm_forward (ln2 block_ex) y = Inr x2" "shape x2 = [1, 2, 4]"
    using LayerNorm_forward_Inr [OF y(2) ln] b by auto
  have "\<exists>f s2. MLP_forward (mlp block_ex) True x2 s1 = Inr (f, s2) \<and> shape f = [1, 2, 4]"
    by (rule MLP_forward_Inr [where Hd = 16 and D = 4])
      (simp_all add: block_ex_def linear_ex_def shape_full x2(2))
  then obtain f s2 where f: "MLP_forward (mlp block_ex) True x2 s1 = Inr (f, s2)"
    "shape f = [1, 2, 4]" by blast
  obtain z where z: "add y f = Inr z" "shape z = [1, 2, 4]"
    using add_same [OF y(2) f(2)] by (simp add: shape_tabulate)
  from x1 a y x2 f z show ?thesis by blast
qed

section \<open>Claims about ImgPatches\<close>

text \<open>
  Claim C1 says that patch \<open>j\<close> of the output of \<open>ImgPatches.forward\<close> is block \<open>j\<close> of
  the image with all its channel values. On the image \<open>img_2ch\<close> (two channels, two
  blocks) the program returns something else: its patch 0 is channel 0 of block 0
  followed by channel 0 of block 1, and its patch 1 is channel 1 of both blocks, where the
  specification's patch 0 is block 0 in both channels. The \<open>reshape\<close> cuts the unfolded
  tensor, whose slowest dimension after the batch is the channel, into rows of
  \<open>c * P * P\<close> elements without first moving the channel behind the block indices.
\<close>

theorem ImgPatches_forward_mixes_blocks:
  "ImgPatches_forward (ImgPatches_init 2) img_2ch =
     Inr \<lparr>shape = [1, 2, 8], data = [0, 1, 4, 5, 2, 3, 6, 7, 8, 9, 12, 13, 10, 11, 14, 15]\<rparr>
   \<and> spec_patches 2 img_2ch =
     \<lparr>shape = [1, 2, 8], data = [0, 1, 4, 5, 8, 9, 12, 13, 2, 3, 6, 7, 10, 11, 14, 15]\<rparr>
   \<and> ImgPatches_forward (ImgPatches_init 2) img_2ch \<noteq> Inr (spec_patches 2 img_2ch)"
proof -
  have a: "ImgPatches_forward (ImgPatches_init 2) img_2ch =
     Inr \<lparr>shape = [1, 2, 8], data = [0, 1, 4, 5, 2, 3, 6, 7, 8, 9, 12, 13, 10, 11, 14, 15]\<rparr>"
    by code_simp
  have b: "spec_patches 2 img_2ch =
     \<lparr>shape = [1, 2, 8], data = [0, 1, 4, 5, 8, 9, 12, 13, 2, 3, 6, 7, 10, 11, 14, 15]\<rparr>"
    by code_simp
  show ?thesis unfolding a b by simp
qed

text \<open>
  Claim C9: on every image of shape \<open>(b, c, h, w)\<close> with at least one image and one
  channel and no side shorter than the patch size \<open>P\<close>, \<open>ImgPatches.forward\<close> returns
  a well-formed tensor of shape \<open>(b, (h // P) * (w // P), c * P * P)\<close>; in particular an
  image of shape \<open>(1, 3, 32, 32)\<close> with \<open>P = 16\<close> gives the shape \<open>(1, 4, 768)\<close>.
\<close>

theorem ImgPatches_forward_shape:
  "(shape img = [b, c, h, w] \<and> 0 < b \<and> 0 < c \<and> 0 < P \<and> P \<le> h \<and> P \<le> w \<longrightarrow>
      (\<exists>out. ImgPatches_forward (ImgPatches_init (int P)) img = Inr out
         \<and> shape out = [b, (h div P) * (w div P), c * P * P] \<and> well_formed out))
   \<and> (shape img = [1, 3, 32, 32] \<longrightarrow>
      (\<exists>out. ImgPatches_forward (ImgPatches_init 16) img = Inr out
         \<and> shape out = [1, 4, 768] \<and> well_formed out))"
proof -
  have g: "\<exists>out. ImgPatches_forward (ImgPatches_init (int P)) img = Inr out
         \<and> shape out = [b, (h div P) * (w div P), c * P * P] \<and> well_formed out"
    if "shape img = [b, c, h, w]" "0 < b" "0 < c" "0 < P" "P \<le> h" "P \<le> w" for b c h w P
    using ImgPatches_forward_Inr [OF that]
    by (simp add: ImgPatches_init_def well_formed_def mult.assoc del: unravel.simps)
  have "\<exists>out. ImgPatches_forward (ImgPatches_init 16) img = Inr out
         \<and> shape out = [1, 4, 768] \<and> well_formed out"
    if "shape img = [1, 3, 32, 32]"
    using g [of 1 3 32 32 16] that by simp
  then show ?thesis using g by blast
qed

theorem ImgPatches_forward_shape_witness:
  "\<exists>out. ImgPatches_forward (ImgPatches_init 16) (full [1, 3, 32, 32] (0::real)) = Inr out
     \<and> shape out = [1, 4, 768] \<and> well_formed out"
  using ImgPatches_forward_shape [of "full [1, 3, 32, 32] (0::real)" 1 3 32 32 16]
  by (simp add: shape_full)

text \<open>
  Claim C10 says that \<open>ImgPatches.forward\<close> never raises when a side of the image is
  not a multiple of the patch size. It raises when a side is shorter than the patch:
  \<open>unfold\<close> refuses a slice longer than the dimension.
\<close>

theorem ImgPatches_forward_raises_on_short_side:
  "\<not> (2::nat) dvd 1 \<and> shape img_1x4 = [1, 1, 1, 4]
   \<and> ImgPatches_forward (ImgPatches_init 2) img_1x4 = Inl RuntimeError"
  by (simp add: img_1x4_def ImgPatches_init_def ImgPatches_forward_def unfold_def bindE_def)

text \<open>
  Claim C10 as amended: on an image of shape \<open>(b, c, h, w)\<close> with \<open>b, c \<ge> 1\<close> and both
  sides at least the patch size \<open>P \<ge> 1\<close>, divisible by it or not, \<open>ImgPatches.forward\<close>
  does not raise; it returns \<open>(h // P) * (w // P)\<close> patches of dimension \<open>c * P * P\<close>
  that depend only on the first \<open>(h // P) * P\<close> rows and \<open>(w // P) * P\<close> columns: the
  trailing rows and columns are discarded. When a side is shorter than \<open>P\<close> it raises
  \<open>RuntimeError\<close>.
\<close>

theorem ImgPatches_forward_floor:
  assumes "shape img = [b, c, h, w]" "0 < b" "0 < c" "0 < P"
  shows "(P \<le> h \<and> P \<le> w \<longrightarrow>
           (\<exists>out. ImgPatches_forward (ImgPatches_init (int P)) img = Inr out
              \<and> shape out = [b, (h div P) * (w div P), c * P * P] \<and> well_formed out
              \<and> (\<forall>img'. shape img' = shape img
                     \<and> (\<forall>b' c' y x. b' < b \<and> c' < c \<and> y < (h div P) * P \<and> x < (w div P) * P
                            \<longrightarrow> get img' [b', c', y, x] = get img [b', c', y, x])
                   \<longrightarrow> ImgPatches_forward (ImgPatches_init (int P)) img' = Inr out)))
       \<and> (h < P \<or> w < P \<longrightarrow>
           ImgPatches_forward (ImgPatches_init (int P)) img = Inl RuntimeError)"
proof (intro conjI impI)
  assume big: "P \<le> h \<and> P \<le> w"
  define out where "out = \<lparr>shape = [b, (h div P) * (w div P), c * P * P],
          data = map (\<lambda>k. case unravel [b, c, h div P, w div P, P, P] k of
                     [b', c', i, j, p, q] \<Rightarrow> get img [b', c', i * P + p, j * P + q])
                   [0..<b * c * (h div P) * (w div P) * P * P]\<rparr>"
  have run: "ImgPatches_forward (ImgPatches_init (int P)) img = Inr out"
    unfolding out_def ImgPatches_init_def
    using assms big by (intro ImgPatches_forward_Inr) simp_all
  have same: "ImgPatches_forward (ImgPatches_init (int P)) img' = Inr out"
    if sh: "shape img' = shape img"
      and ag: "\<forall>b' c' y x. b' < b \<and> c' < c \<and> y < (h div P) * P \<and> x < (w div P) * P
              \<longrightarrow> get img' [b', c', y, x] = get img [b', c', y, x]" for img'
  proof -
    have "ImgPatches_forward \<lparr>patch_size = int P\<rparr> img' =
          ImgPatches_forward \<lparr>patch_size = int P\<rparr> img"
      using assms big sh ag by (intro ImgPatches_forward_region [of img b c h w]) simp_all
    then show ?thesis using run by (simp only: ImgPatches_init_def)
  qed
  have sh: "shape out = [b, (h div P) * (w div P), c * P * P]"
    by (simp only: out_def tensor.simps)
  have wf: "well_formed out"
    unfolding well_formed_def out_def by (simp add: mult.assoc del: unravel.simps)
  from run sh wf same show "\<exists>out. ImgPatches_forward (ImgPatches_init (int P)) img = Inr out
              \<and> shape out = [b, (h div P) * (w div P), c * P * P] \<and> well_formed out
              \<and> (\<forall>img'. shape img' = shape img
                     \<and> (\<forall>b' c' y x. b' < b \<and> c' < c \<and> y < (h div P) * P \<and> x < (w div P) * P
                            \<longrightarrow> get img' [b', c', y, x] = get img [b', c', y, x])
                   \<longrightarrow> ImgPatches_forward (ImgPatches_init (int P)) img' = Inr out)"
    by blast
next
  assume "h < P \<or> w < P"
  then show "ImgPatches_forward (ImgPatches_init (int P)) img = Inl RuntimeError"
    using ImgPatches_forward_small [of img b c h w P] assms by (simp add: ImgPatches_init_def)
qed

theorem ImgPatches_forward_floor_witness:
  "(\<exists>out. ImgPatches_forward (ImgPatches_init 2) img_3x5 = Inr out
      \<and> shape out = [1, 2, 4] \<and> well_formed out
      \<and> (\<forall>img'. shape img' = [1, 1, 3, 5]
             \<and> (\<forall>y x. y < 2 \<and> x < 4 \<longrightarrow> get img' [0, 0, y, x] = get img_3x5 [0, 0, y, x])
           \<longrightarrow> ImgPatches_forward (ImgPatches_init 2) img' = Inr out))
   \<and> ImgPatches_forward (ImgPatches_init 2) img_1x4 = Inl RuntimeError"
  using ImgPatches_forward_floor [of img_3x5 1 1 3 5 2]
    ImgPatches_forward_floor [of img_1x4 1 1 1 4 2]
  by (simp add: img_3x5_def img_1x4_def)

section \<open>Claims about construction\<close>

text \<open>
  Claim C2 says that \<open>ViT.__init__\<close> raises when \<open>embed_dim\<close> is not divisible by
  \<open>num_heads\<close>. The constructor never compares the two: with an embedding dimension of
  10 and 3 heads it returns a model.
\<close>

theorem ViT_init_accepts_indivisible_heads:
  "\<not> (3::int) dvd 10 \<and> \<not> isl (ViT_init 32 16 3 10 True 10 1 3 4 0 st0)"
proof -
  have "succeeds (ViT_init 32 16 3 10 True 10 1 3 4 0)"
    by (rule succeeds_ViT_init) simp_all
  then obtain m s' where "ViT_init 32 16 3 10 True 10 1 3 4 0 st0 = Inr (m, s')"
    unfolding succeeds_def by blast
  then show ?thesis by simp
qed

text \<open>
  Claim C2 as amended: whether \<open>embed_dim\<close> is divisible by \<open>num_heads\<close> plays no part
  in the construction, which succeeds whenever the patch size divides the image size and
  the other arguments are sizes the layers accept. The misconfiguration shows at forward
  time: the attention module that the constructor builds raises on every non-empty
  input, \<open>RuntimeError\<close> from the reshape into heads, or \<open>ZeroDivisionError\<close> from
  \<open>c // num_heads\<close> when there are no heads; and no call of \<open>ViT.forward\<close> on the
  constructed model returns when it has at least one block.
\<close>

theorem ViT_init_ignores_num_heads:
  assumes "psize \<noteq> 0" "img_size mod psize = 0" "0 \<le> in_ch" "0 \<le> num_classes"
    "0 < embed_dim" "0 \<le> mlp_ratio" "0 \<le> drop_rate" "drop_rate \<le> 1"
    and "\<not> nheads dvd embed_dim"
  shows "(\<exists>m s'. ViT_init img_size psize in_ch num_classes use_mlp embed_dim depth nheads
              mlp_ratio drop_rate s = Inr (m, s'))
       \<and> (\<forall>m s' x. ViT_init img_size psize in_ch num_classes use_mlp embed_dim depth nheads
              mlp_ratio drop_rate s = Inr (m, s') \<and> 0 < depth
            \<longrightarrow> isl (ViT_forward m training x msk t))
       \<and> (\<exists>a s'. Attention_init embed_dim nheads drop_rate drop_rate s = Inr (a, s'))
       \<and> (\<forall>a sa sb x B N. Attention_init embed_dim nheads drop_rate drop_rate sa = Inr (a, sb)
              \<and> shape x = [B, N, nat embed_dim] \<and> 0 < B \<and> 0 < N
            \<longrightarrow> Attention_forward a training x msk t =
                  Inl (if nheads = 0 then ZeroDivisionError else RuntimeError))"
proof (intro conjI allI impI)
  show "\<exists>m s'. ViT_init img_size psize in_ch num_classes use_mlp embed_dim depth nheads
              mlp_ratio drop_rate s = Inr (m, s')"
    using succeeds_ViT_init [OF assms(1-8)] unfolding succeeds_def by blast
  show "\<exists>a s'. Attention_init embed_dim nheads drop_rate drop_rate s = Inr (a, s')"
    using succeeds_Attention_init [OF assms(5) assms(7,8) assms(7,8)]
    unfolding succeeds_def by blast
next
  fix m s' and x :: "real tensor"
  assume h: "ViT_init img_size psize in_ch num_classes use_mlp embed_dim depth nheads
              mlp_ratio drop_rate s = Inr (m, s') \<and> 0 < depth"
  note d = postD [OF post_ViT_init_dims conjunct1 [OF h]]
  from d h obtain blk rest where bl: "blocks (transfomer m) = blk # rest"
    by (cases "blocks (transfomer m)") auto
  from d bl have q: "shape (weight (qkv (attn blk))) = [3 * nat embed_dim, nat embed_dim]"
    "bias (qkv (attn blk)) = None" "num_heads (attn blk) = nheads"
    by auto
  have nd: "\<not> num_heads (attn blk) dvd int (nat embed_dim)"
    using assms(5,9) q(3) by simp
  from d have pe: "patches m = ImgPatches_init psize"
    "shape (weight (patch_embed m)) = [nat embed_dim, nat (in_ch * psize * psize)]"
    "\<exists>bb. bias (patch_embed m) = Some bb \<and> shape bb = [nat embed_dim]"
    "cls_emb m = full [1, 1, nat embed_dim] 0"
    by blast+
  show "isl (ViT_forward m training x msk t)"
    by (rule ViT_forward_indivisible [OF pe bl q(1,2) nd])
next
  fix a sa sb and x :: "real tensor" and B N
  assume h: "Attention_init embed_dim nheads drop_rate drop_rate sa = Inr (a, sb)
      \<and> shape x = [B, N, nat embed_dim] \<and> 0 < B \<and> 0 < N"
  from postD [OF post_Attention_init] h
  have a: "num_heads a = nheads" "shape (weight (qkv a)) = [nat (embed_dim * 3), nat embed_dim]"
    "bias (qkv a) = None"
    by blast+
  have w: "shape (weight (qkv a)) = [3 * nat embed_dim, nat embed_dim]"
    using a(2) assms(5) by (simp add: nat_mult_distrib)
  have d: "\<not> num_heads a dvd int (nat embed_dim)"
    using assms(5,9) a(1) by simp
  from Attention_forward_indivisible [OF _ _ _ w a(3) d, of x B N training msk t] h a(1)
  show "Attention_forward a training x msk t =
      Inl (if nheads = 0 then ZeroDivisionError else RuntimeError)"
    by simp
qed

theorem ViT_init_ignores_num_heads_witness:
  "(\<exists>m s'. ViT_init 32 16 3 10 True 10 1 3 4 0 st0 = Inr (m, s')
       \<and> isl (ViT_forward m True (full [1, 3, 32, 32] 0) (None :: unit option) st0))
   \<and> (\<exists>a s'. Attention_init 10 3 0 0 st0 = Inr (a, s')
        \<and> Attention_forward a True (full [1, 5, 10] 0) (None :: unit option) st0 = Inl RuntimeError)"
proof -
  have h: "(32::int) mod 16 = 0" "\<not> (3::int) dvd 10" by simp_all
  have p: "(16::int) \<noteq> 0" "0 \<le> (3::int)" "0 \<le> (10::int)" "0 < (10::int)" "0 \<le> (4::int)"
    "0 \<le> (0::real)" "(0::real) \<le> 1" by simp_all
  note u = ViT_init_ignores_num_heads [of 16 32 3 10 10 4 0 3 True 1 st0 True
      "None :: unit option" st0, OF p(1) h(1) p(2-7) h(2)]
  note f = u [THEN conjunct2, THEN conjunct1, rule_format,
      where x = "full [1, 3, 32, 32] 0"]
  note v = u [THEN conjunct2, THEN conjunct2, THEN conjunct2, rule_format,
      where x = "full [1, 5, 10] 0" and B = 1 and N = 5 and sa = st0]
  from u obtain m s' where m: "ViT_init 32 16 3 10 True 10 1 3 4 0 st0 = Inr (m, s')" by auto
  from f [of m s'] m
  have fm: "isl (ViT_forward m True (full [1, 3, 32, 32] 0) (None :: unit option) st0)" by simp
  from u obtain a s'' where a: "Attention_init 10 3 0 0 st0 = Inr (a, s'')" by auto
  from v [of a s''] a
  have "Attention_forward a True (full [1, 5, 10] 0) (None :: unit option) st0 =
      Inl RuntimeError"
    by (simp add: shape_full)
  with m fm a show ?thesis by blast
qed

text \<open>
  Claim C5: constructing the model with an image size that the patch size does not
  divide raises, so that no model exists to call: \<open>ValueError\<close> from the explicit check,
  and for a patch size of 0 the remainder itself raises \<open>ZeroDivisionError\<close>. When a
  non-zero patch size divides the image size the check passes, and the construction
  returns a model for every choice of the remaining arguments that the layers accept
  (no negative size, a positive embedding dimension, a dropout probability in
  \<open>[0, 1]\<close>).
\<close>

theorem ViT_init_checks_divisibility:
  "(\<not> psize dvd img_size \<longrightarrow>
      ViT_init img_size psize in_ch num_classes use_mlp embed_dim depth nheads mlp_ratio
        drop_rate s = Inl (if psize = 0 then ZeroDivisionError else ValueError))
   \<and> (psize dvd img_size \<and> psize \<noteq> 0 \<and> 0 \<le> in_ch \<and> 0 \<le> num_classes \<and> 0 < embed_dim
        \<and> 0 \<le> mlp_ratio \<and> 0 \<le> drop_rate \<and> drop_rate \<le> 1 \<longrightarrow>
      (\<exists>m s'. ViT_init img_size psize in_ch num_classes use_mlp embed_dim depth nheads
          mlp_ratio drop_rate s = Inr (m, s')))"
proof (intro conjI impI)
  assume "\<not> psize dvd img_size"
  then have "psize = 0 \<or> img_size mod psize \<noteq> 0" by (simp add: dvd_eq_mod_eq_0)
  then show "ViT_init img_size psize in_ch num_classes use_mlp embed_dim depth nheads mlp_ratio
        drop_rate s = Inl (if psize = 0 then ZeroDivisionError else ValueError)"
    by (auto simp: ViT_init_def raise_def)
next
  assume h: "psize dvd img_size \<and> psize \<noteq> 0 \<and> 0 \<le> in_ch \<and> 0 \<le> num_classes \<and> 0 < embed_dim
        \<and> 0 \<le> mlp_ratio \<and> 0 \<le> drop_rate \<and> drop_rate \<le> 1"
  then have "img_size mod psize = 0" by (simp add: dvd_eq_mod_eq_0)
  with h have "succeeds (ViT_init img_size psize in_ch num_classes use_mlp embed_dim depth nheads
          mlp_ratio drop_rate)"
    by (intro succeeds_ViT_init) simp_all
  then show "\<exists>m s'. ViT_init img_size psize in_ch num_classes use_mlp embed_dim depth nheads
          mlp_ratio drop_rate s = Inr (m, s')"
    unfolding succeeds_def by blast
qed

theorem ViT_init_checks_divisibility_witness:
  "ViT_init 225 16 3 1000 True 768 12 12 4 0 st0 = Inl ValueError
   \<and> (\<exists>m s'. ViT_init 224 16 3 1000 True 768 12 12 4 0 st0 = Inr (m, s'))"
  using ViT_init_checks_divisibility [of 16 225 3 1000 True 768 12 12 4 0 st0]
    ViT_init_checks_divisibility [of 16 224 3 1000 True 768 12 12 4 0 st0]
  by simp

section \<open>Claims about the forward pass\<close>

text \<open>
  Claim C3: the attention module that \<open>Attention.__init__\<close> builds for the embedding
  dimension \<open>dm\<close> has the scale \<open>1 / sqrt dm\<close>, which is not the per-head
  \<open>1 / sqrt (dm / num_heads)\<close> as soon as there is more than one head; and for every
  input on which queries and keys are computed, these are two tensors of one shape
  \<open>(B, H, N, K)\<close> and every score before the softmax is the inner product of a query
  and a key multiplied by \<open>1 / sqrt dm\<close>.
\<close>

theorem Attention_scale_is_model_dim:
  assumes "Attention_init dm nheads ap pp s = Inr (a, s')"
  shows "scale a = 1 / sqrt (real_of_int dm)
       \<and> (1 < nheads \<and> nheads dvd dm \<longrightarrow> scale a \<noteq> 1 / sqrt (real_of_int (dm div nheads)))
       \<and> (Attention_qkv a x = Inr (q, k, v) \<longrightarrow>
            (\<exists>B H N K dot. shape q = [B, H, N, K] \<and> shape k = [B, H, N, K]
               \<and> Attention_dot a q k = Inr dot \<and> shape dot = [B, H, N, N]
               \<and> (\<forall>b h i j. b < B \<and> h < H \<and> i < N \<and> j < N \<longrightarrow>
                     get dot [b, h, i, j] =
                       (\<Sum>d\<leftarrow>[0..<K]. get q [b, h, i, d] * get k [b, h, j, d])
                         * (1 / sqrt (real_of_int dm)))))"
proof (intro conjI impI)
  from postD [OF post_Attention_init assms]
  have pos: "0 < dm" and sc: "scale a = 1 / sqrt (real_of_int dm)" by blast+
  show "scale a = 1 / sqrt (real_of_int dm)" by (rule sc)
  show "scale a \<noteq> 1 / sqrt (real_of_int (dm div nheads))" if "1 < nheads \<and> nheads dvd dm"
    using scale_differs [of dm nheads] pos that by (simp add: sc)
  show "\<exists>B H N K dot. shape q = [B, H, N, K] \<and> shape k = [B, H, N, K]
               \<and> Attention_dot a q k = Inr dot \<and> shape dot = [B, H, N, N]
               \<and> (\<forall>b h i j. b < B \<and> h < H \<and> i < N \<and> j < N \<longrightarrow>
                     get dot [b, h, i, j] =
                       (\<Sum>d\<leftarrow>[0..<K]. get q [b, h, i, d] * get k [b, h, j, d])
                         * (1 / sqrt (real_of_int dm)))"
    if "Attention_qkv a x = Inr (q, k, v)"
  proof -
    from Attention_qkv_shapes [OF that] obtain B H N K where
      sh: "shape q = [B, H, N, K]" "shape k = [B, H, N, K]" by blast
    from Attention_dot_Inr [OF sh] obtain dot where
      dot: "Attention_dot a q k = Inr dot" "shape dot = [B, H, N, N]" by blast
    have "get dot [b, h, i, j] =
        (\<Sum>d\<leftarrow>[0..<K]. get q [b, h, i, d] * get k [b, h, j, d]) * (1 / sqrt (real_of_int dm))"
      if "b < B \<and> h < H \<and> i < N \<and> j < N" for b h i j
      using Attention_dot_get [OF sh, of b h i j a] that dot(1) by (auto simp: sc)
    with sh dot show ?thesis by blast
  qed
qed

theorem Attention_scale_is_model_dim_witness:
  "\<exists>a s' q k v. Attention_init 4 2 0 0 st0 = Inr (a, s')
     \<and> Attention_qkv a tokens_ex = Inr (q, k, v)
     \<and> scale a = 1 / sqrt 4 \<and> scale a \<noteq> 1 / sqrt 2
     \<and> (\<exists>B H N K dot. shape q = [B, H, N, K] \<and> shape k = [B, H, N, K]
          \<and> Attention_dot a q k = Inr dot \<and> shape dot = [B, H, N, N]
          \<and> (\<forall>b h i j. b < B \<and> h < H \<and> i < N \<and> j < N \<longrightarrow>
                get dot [b, h, i, j] =
                  (\<Sum>d\<leftarrow>[0..<K]. get q [b, h, i, d] * get k [b, h, j, d]) * (1 / sqrt 4)))"
proof -
  have "succeeds (Attention_init 4 2 0 0)" by (rule succeeds_Attention_init) simp_all
  then obtain a s' where a: "Attention_init 4 2 0 0 st0 = Inr (a, s')"
    unfolding succeeds_def by blast
  from Attention_init_dims [of 4 2 0 0 st0 a s'] a have d: "Attention_dims a 4 2" by simp
  from d have "\<exists>q k v. Attention_qkv a tokens_ex = Inr (q, k, v) \<and> shape q = [1, 2, 2, 4 div 2]
           \<and> shape k = [1, 2, 2, 4 div 2] \<and> shape v = [1, 2, 2, 4 div 2]"
    by (intro Attention_qkv_Inr) (simp_all add: Attention_dims_def tokens_ex_def shape_full)
  then obtain q k v where q: "Attention_qkv a tokens_ex = Inr (q, k, v)" by blast
  from Attention_scale_is_model_dim [OF a, of tokens_ex q k v] q a show ?thesis by auto
qed

text \<open>
  Claim C4: for every model, every input (well-formed or not) and every value passed
  as mask, \<open>ViT.forward\<close> raises the same exception or returns the same tensor as with
  no mask, and leaves the random source in the same state; so does
  \<open>Attention.forward\<close>. Only the notice written to the standard output differs.
\<close>

theorem mask_has_no_effect:
  "outcome_rng (ViT_forward m training x (Some (mk :: 'm)) s) =
     outcome_rng (ViT_forward m training x (None :: 'm option) s)
   \<and> outcome_rng (Attention_forward a training y (Some mk) s) =
       outcome_rng (Attention_forward a training y (None :: 'm option) s)"
  using mrel_outcome_rng [OF ViT_forward_mask, of s s m training x mk]
    mrel_outcome_rng [OF Attention_forward_mask, of s s a training y mk]
  by simp

theorem mask_has_no_effect_witness:
  "outcome_rng (ViT_forward vit_ex True image_ex (Some (1::nat)) st0) =
     outcome_rng (ViT_forward vit_ex True image_ex (None :: nat option) st0)
   \<and> outcome_rng (Attention_forward attention_ex True tokens_ex (Some (1::nat)) st0) =
       outcome_rng (Attention_forward attention_ex True tokens_ex (None :: nat option) st0)"
  by (rule mask_has_no_effect)

text \<open>
  Claim C6: with dropout disabled, that is in inference mode or with every dropout
  probability of the model 0 (as in a model built with \<open>drop_rate = 0\<close>), what
  \<open>ViT.forward\<close> returns for a model, an input and a mask does not depend on the state of
  the environment in which it runs: two invocations, whatever happened in between, give
  the same exception or the same output.
\<close>

theorem ViT_forward_deterministic:
  "(dropout_disabled training (ViT_dropouts m) \<longrightarrow>
      outcome (ViT_forward m training x msk s) = outcome (ViT_forward m training x msk t))
   \<and> dropout_disabled False (ViT_dropouts m)
   \<and> (ViT_init img_size psize in_ch num_classes use_mlp embed_dim depth nheads mlp_ratio 0 s0
         = Inr (m', s1) \<longrightarrow> dropout_disabled True (ViT_dropouts m'))"
proof (intro conjI impI)
  assume "dropout_disabled training (ViT_dropouts m)"
  from mrel_outcome [OF ViT_forward_any_state [OF this], of s t x msk]
  show "outcome (ViT_forward m training x msk s) = outcome (ViT_forward m training x msk t)"
    by (simp add: any_state_def)
next
  show "dropout_disabled False (ViT_dropouts m)" by (simp add: dropout_disabled_def)
next
  assume "ViT_init img_size psize in_ch num_classes use_mlp embed_dim depth nheads mlp_ratio 0 s0
         = Inr (m', s1)"
  from postD [OF post_ViT_init this] show "dropout_disabled True (ViT_dropouts m')"
    by (simp add: dropout_disabled_def)
qed

theorem ViT_forward_deterministic_witness:
  "outcome (ViT_forward vit_ex True image_ex (None :: unit option) st0) =
     outcome (ViT_forward vit_ex True image_ex (None :: unit option) st1)
   \<and> (\<exists>m' s'. ViT_init 4 2 1 3 False 4 1 2 4 0 st0 = Inr (m', s')
         \<and> dropout_disabled True (ViT_dropouts m'))"
proof -
  have d: "dropout_disabled True (ViT_dropouts vit_ex)"
    by (simp add: dropout_disabled_def ViT_dropouts_def vit_ex_def block_ex_def attention_ex_def
        Block_dropouts_def Head_dropouts_def)
  have "succeeds (ViT_init 4 2 1 3 False 4 1 2 4 0)" by (rule succeeds_ViT_init) simp_all
  then obtain m' s' where i: "ViT_init 4 2 1 3 False 4 1 2 4 0 st0 = Inr (m', s')"
    unfolding succeeds_def by blast
  from ViT_forward_deterministic [of True vit_ex image_ex "None :: unit option" st0 st1
      4 2 1 3 False 4 1 2 4 st0 m' s'] d i
  show ?thesis by blast
qed

text \<open>
  Claim C7: an attention module with the parameter shapes of embedding dimension \<open>D\<close>
  and \<open>H \<ge> 1\<close> heads, \<open>H\<close> dividing \<open>D\<close>, maps every input of shape \<open>(B, N, D)\<close> to a
  well-formed output of shape \<open>(B, N, D)\<close> without raising, in training and in inference
  mode, with or without a mask; the module that \<open>Attention.__init__\<close> builds has these
  parameter shapes.
\<close>

theorem Attention_forward_preserves_shape:
  "(Attention_dims a D H \<and> 0 < H \<and> H dvd D \<and> shape x = [B, N, D] \<longrightarrow>
      (\<exists>y s'. Attention_forward a training x msk s = Inr (y, s') \<and> shape y = [B, N, D]
         \<and> well_formed y))
   \<and> (Attention_init (int D) (int H) ap pp s0 = Inr (a', s1) \<longrightarrow> Attention_dims a' D H)"
proof (intro conjI impI)
  assume h: "Attention_dims a D H \<and> 0 < H \<and> H dvd D \<and> shape x = [B, N, D]"
  then have o: "bias (out_proj a) = None \<or> (\<exists>bb. bias (out_proj a) = Some bb \<and> shape bb = [D])"
    by (auto simp: Attention_dims_def split: option.splits)
  from h show "\<exists>y s'. Attention_forward a training x msk s = Inr (y, s') \<and> shape y = [B, N, D]
         \<and> well_formed y"
    by (intro Attention_forward_Inr [where H = H] o) (simp_all add: Attention_dims_def)
next
  assume "Attention_init (int D) (int H) ap pp s0 = Inr (a', s1)"
  then show "Attention_dims a' D H" by (rule Attention_init_dims)
qed

theorem Attention_forward_preserves_shape_witness:
  "(\<exists>y s'. Attention_forward attention_ex True tokens_ex (None :: unit option) st0 = Inr (y, s')
      \<and> shape y = [1, 2, 4] \<and> well_formed y)
   \<and> (\<exists>a' s'. Attention_init 4 2 0 0 st0 = Inr (a', s') \<and> Attention_dims a' 4 2)"
proof -
  have d: "Attention_dims attention_ex 4 2"
    by (simp add: Attention_dims_def attention_ex_def linear_ex_def shape_full)
  have "succeeds (Attention_init 4 2 0 0)" by (rule succeeds_Attention_init) simp_all
  then obtain a' s' where "Attention_init 4 2 0 0 st0 = Inr (a', s')"
    unfolding succeeds_def by blast
  then have i: "Attention_init (int 4) (int 2) 0 0 st0 = Inr (a', s')" by simp
  from Attention_forward_preserves_shape [of attention_ex 4 2 tokens_ex 1 2 True
      "None :: unit option" st0 0 0 st0 a' s'] d i
  show ?thesis by (auto simp: tokens_ex_def shape_full)
qed

text \<open>
  Claim C8: \<open>Block.forward\<close> is the composition of two pre-norm residual steps, the
  first around the attention (which receives the mask) with the layer norm \<open>ln1\<close>, the
  second around the feed-forward network with the layer norm \<open>ln2\<close>; the two layer norms
  are separate parameters of the block, so the equation holds whatever parameters each
  of them has. Read step by step: when \<open>x1 = ln1(x)\<close>, \<open>a = attn(x1, mask)\<close>,
  \<open>y = x + a\<close>, \<open>x2 = ln2(y)\<close>, \<open>f = mlp(x2)\<close> and \<open>z = y + f\<close> are computed
  without an exception, the block returns \<open>z\<close>; and the sum of two tensors of one
  shape is their element-wise sum.
\<close>

theorem Block_forward_is_pre_norm_residual:
  "Block_forward b training x msk =
     spec_Block (ln1 b) (\<lambda>u. Attention_forward (attn b) training u msk)
                (ln2 b) (MLP_forward (mlp b) training) x
   \<and> Block_forward (b\<lparr>ln1 := n1, ln2 := n2\<rparr>) training x msk =
     spec_Block n1 (\<lambda>u. Attention_forward (attn b) training u msk)
                n2 (MLP_forward (mlp b) training) x
   \<and> (LayerNorm_forward (ln1 b) x = Inr x1
        \<and> Attention_forward (attn b) training x1 msk s = Inr (a, s1)
        \<and> add x a = Inr y \<and> LayerNorm_forward (ln2 b) y = Inr x2
        \<and> MLP_forward (mlp b) training x2 s1 = Inr (f, s2) \<and> add y f = Inr z
      \<longrightarrow> Block_forward b training x msk s = Inr (z, s2))
   \<and> (shape u = shape w \<and> valid_index (shape u) idx \<longrightarrow>
        (\<exists>r. add u w = Inr r \<and> shape r = shape u \<and> get r idx = get u idx + get w idx))"
proof (intro conjI impI)
  show "Block_forward b training x msk =
     spec_Block (ln1 b) (\<lambda>u. Attention_forward (attn b) training u msk)
                (ln2 b) (MLP_forward (mlp b) training) x"
    by (rule Block_forward_spec)
  show "Block_forward (b\<lparr>ln1 := n1, ln2 := n2\<rparr>) training x msk =
     spec_Block n1 (\<lambda>u. Attention_forward (attn b) training u msk)
                n2 (MLP_forward (mlp b) training) x"
    using Block_forward_spec [of "b\<lparr>ln1 := n1, ln2 := n2\<rparr>" training x msk] by simp
  show "Block_forward b training x msk s = Inr (z, s2)"
    if "LayerNorm_forward (ln1 b) x = Inr x1
        \<and> Attention_forward (attn b) training x1 msk s = Inr (a, s1)
        \<and> add x a = Inr y \<and> LayerNorm_forward (ln2 b) y = Inr x2
        \<and> MLP_forward (mlp b) training x2 s1 = Inr (f, s2) \<and> add y f = Inr z"
    using that by (intro Block_forward_steps [of b x x1 training msk s a s1 y x2 f s2 z]) simp_all
  show "\<exists>r. add u w = Inr r \<and> shape r = shape u \<and> get r idx = get u idx + get w idx"
    if "shape u = shape w \<and> valid_index (shape u) idx"
    using that add_same_get [of u w idx] by auto
qed

theorem Block_forward_is_pre_norm_residual_witness:
  "Block_forward block_ex True tokens_ex (None :: unit option) =
     spec_Block layer_norm_ex (\<lambda>u. Attention_forward attention_ex True u (None :: unit option))
                layer_norm_ex (MLP_forward (mlp block_ex) True) tokens_ex
   \<and> (\<exists>x1 a s1 y x2 f s2 z. LayerNorm_forward (ln1 block_ex) tokens_ex = Inr x1
        \<and> Attention_forward (attn block_ex) True x1 (None :: unit option) st0 = Inr (a, s1)
        \<and> add tokens_ex a = Inr y \<and> LayerNorm_forward (ln2 block_ex) y = Inr x2
        \<and> MLP_forward (mlp block_ex) True x2 s1 = Inr (f, s2) \<and> add y f = Inr z
        \<and> Block_forward block_ex True tokens_ex (None :: unit option) st0 = Inr (z, s2))
   \<and> (\<exists>r. add tokens_ex tokens_ex = Inr r \<and> shape r = [1, 2, 4]
        \<and> get r [0, 1, 3] = get tokens_ex [0, 1, 3] + get tokens_ex [0, 1, 3])"
proof -
  from block_ex_runs obtain x1 a s1 y x2 f s2 z where
    r: "LayerNorm_forward (ln1 block_ex) tokens_ex = Inr x1"
      "Attention_forward (attn block_ex) True x1 (None :: unit option) st0 = Inr (a, s1)"
      "add tokens_ex a = Inr y" "LayerNorm_forward (ln2 block_ex) y = Inr x2"
      "MLP_forward (mlp block_ex) True x2 s1 = Inr (f, s2)" "add y f = Inr z"
    by blast
  have t: "shape tokens_ex = [1, 2, 4]" by (simp add: tokens_ex_def shape_full)
  have v: "valid_index (shape tokens_ex) [0, 1, 3]" by (simp add: t valid_index_def)
  note c = Block_forward_is_pre_norm_residual [of block_ex True tokens_ex "None :: unit option"
      layer_norm_ex layer_norm_ex x1 st0 a s1 y x2 f s2 z tokens_ex tokens_ex "[0, 1, 3]"]
  from c have e: "Block_forward block_ex True tokens_ex (None :: unit option) =
     spec_Block layer_norm_ex (\<lambda>u. Attention_forward attention_ex True u (None :: unit option))
                layer_norm_ex (MLP_forward (mlp block_ex) True) tokens_ex"
    by (simp add: block_ex_def)
  from c r have g: "Block_forward block_ex True tokens_ex (None :: unit option) st0 = Inr (z, s2)"
    by blast
  from c v t have "\<exists>r. add tokens_ex tokens_ex = Inr r \<and> shape r = [1, 2, 4]
        \<and> get r [0, 1, 3] = get tokens_ex [0, 1, 3] + get tokens_ex [0, 1, 3]"
    by simp
  with e g r show ?thesis by blast
qed


end
